theory Spec2Isabelle
  imports Complex_Main "HOL-Library.Log_Nat"
begin

section \<open>float64 arithmetic\<close>

text \<open>
  The scaling expression of \<^verbatim>\<open>handleBlob\<close> is evaluated in Go's \<^verbatim>\<open>float64\<close>: every
  conversion, the division and the multiplication are each rounded to the nearest value with
  a 53-bit significand, ties to the even significand. A float64 value is modelled as the
  rational number it denotes. The exponent range is not modelled: for operands that come
  from 64-bit integers the quotients and products of \<^verbatim>\<open>handleBlob\<close> lie between
  \<open>2 ^ 63\<close> and its inverse, far inside the normal range, so no overflow, underflow or
  subnormal rounding can occur there. Both divisions of \<^verbatim>\<open>handleBlob\<close> have a divisor
  above \<^verbatim>\<open>options.Size\<close>, which is positive there, so no division by zero, infinity
  or NaN arises. \<^verbatim>\<open>math.Floor\<close> is exact. The conversion back to \<^verbatim>\<open>int\<close> is exact on every value inside
  the range of \<^verbatim>\<open>int\<close>, where every scaled value of a dimension from 0 to below \<open>2 ^ 53\<close>
  lies (\<open>scale_le\<close> below); a product of \<open>2 ^ 63\<close>, which dimensions next to the largest
  \<^verbatim>\<open>int\<close> reach, is outside it.
\<close>

definition shl :: "int \<Rightarrow> int \<Rightarrow> int" where
  \<comment> \<open>\<open>x\<close> times \<open>2 ^ k\<close> for \<open>k \<ge> 0\<close>, and \<open>x\<close> itself for negative \<open>k\<close>\<close>
  "shl x k = x * 2 ^ nat k"

definition round_ratio :: "int \<Rightarrow> int \<Rightarrow> rat" where
  \<comment> \<open>the float64 nearest to \<open>p / q\<close> for \<open>p \<ge> 0\<close> and \<open>q > 0\<close>: \<open>e\<close> is the binary exponent
      of \<open>p / q\<close>, \<open>s\<close> scales it into \<open>[2 ^ 52, 2 ^ 53)\<close>, \<open>n'\<close> is the rounded significand\<close>
  "round_ratio p q =
     (if p = 0 then 0
      else
        let k = bitlen p - bitlen q;
            e = (if shl q k \<le> shl p (- k) then k else k - 1);
            s = 52 - e;
            P = shl p s;
            Q = shl q (- s);
            n = P div Q;
            r = P mod Q;
            n' = (if 2 * r < Q then n
                  else if Q < 2 * r then n + 1
                  else if even n then n else n + 1)
        in of_int (shl n' (- s)) / of_int (shl 1 s))"

definition fl :: "rat \<Rightarrow> rat" where
  \<comment> \<open>rounding to float64; round-to-nearest-even is symmetric in the sign\<close>
  "fl x = (case quotient_of x of (p, q) \<Rightarrow>
             if p < 0 then - round_ratio (- p) q else round_ratio p q)"

definition floor_product :: "int \<Rightarrow> int \<Rightarrow> int \<Rightarrow> int" where
  \<comment> \<open>\<^verbatim>\<open>math.Floor(float64(y) * float64(float64(a)/float64(b)))\<close>, an integral float64\<close>
  "floor_product y a b = \<lfloor>fl (fl (of_int y) * fl (fl (of_int a) / fl (of_int b)))\<rfloor>"

definition int_of_float64 :: "int \<Rightarrow> int" where
  \<comment> \<open>the conversion \<^verbatim>\<open>int(f)\<close> of an integral float64 to the 64-bit \<^verbatim>\<open>int\<close>: exact inside
      the range of \<^verbatim>\<open>int\<close>; outside it Go leaves the result to the implementation, and the
      amd64 conversion instruction gives the least \<^verbatim>\<open>int\<close>\<close>
  "int_of_float64 n = (if - (2 ^ 63) \<le> n \<and> n < 2 ^ 63 then n else - (2 ^ 63))"

definition scale :: "int \<Rightarrow> int \<Rightarrow> int \<Rightarrow> int" where
  \<comment> \<open>\<^verbatim>\<open>int(math.Floor(float64(y) * float64(float64(a)/float64(b))))\<close>\<close>
  "scale y a b = int_of_float64 (floor_product y a b)"

section \<open>Data\<close>

type_synonym blobKey = string

text \<open>\<^verbatim>\<open>blobstore.BlobInfo\<close> of the App Engine SDK; the package reads \<^verbatim>\<open>BlobKey\<close> and
  \<^verbatim>\<open>ContentType\<close> only.\<close>

record blobInfo =
  BlobKey :: blobKey
  ContentType :: string
  CreationTime :: int
  Filename :: string
  ByteSize :: int

section \<open>validateMimeType\<close>

definition allowedMimeTypes :: "string \<rightharpoonup> bool" where
  "allowedMimeTypes =
     [''image/jpeg'' \<mapsto> True, ''image/jpg'' \<mapsto> True, ''image/png'' \<mapsto> True,
      ''image/gif'' \<mapsto> True]"

definition is_ascii :: "char \<Rightarrow> bool" where
  "is_ascii c = (of_char c < (128::nat))"

definition ascii_lower :: "char \<Rightarrow> char" where
  "ascii_lower c =
     (if (65::nat) \<le> of_char c \<and> of_char c \<le> (90::nat)
      then char_of (of_char c + (32::nat)) else c)"

text \<open>
  \<^verbatim>\<open>strings.ToLower\<close> of the Go library. On a string of ASCII bytes it maps \<^verbatim>\<open>A\<close>..\<^verbatim>\<open>Z\<close> to
  \<^verbatim>\<open>a\<close>..\<^verbatim>\<open>z\<close> and keeps every other byte. Any other string is read as UTF-8, a byte that
  starts no valid encoding counting as U+FFFD; every code point is mapped by
  \<^verbatim>\<open>unicode.ToLower\<close> and encoded again. The case table behind \<^verbatim>\<open>unicode.ToLower\<close> is not part
  of this package: it is the parameter \<open>unicode_ToLower\<close>. Bytes and code points are
  integers here.
\<close>

definition cont :: "int \<Rightarrow> bool" where
  \<comment> \<open>a UTF-8 continuation byte\<close>
  "cont b = (128 \<le> b \<and> b \<le> 191)"

definition DecodeRune :: "int list \<Rightarrow> int \<times> nat" where
  \<comment> \<open>\<^verbatim>\<open>utf8.DecodeRune\<close>: the first code point of the bytes and the number of bytes it takes\<close>
  "DecodeRune p =
     (case p of
        [] \<Rightarrow> (65533, 0)
      | b0 # r \<Rightarrow>
          if b0 < 128 then (b0, 1)
          else if 194 \<le> b0 \<and> b0 \<le> 223 then
            (case r of
               b1 # r1 \<Rightarrow>
                 if cont b1 then ((b0 - 192) * 64 + (b1 - 128), 2) else (65533, 1)
             | [] \<Rightarrow> (65533, 1))
          else if 224 \<le> b0 \<and> b0 \<le> 239 then
            (case r of
               b1 # b2 # r2 \<Rightarrow>
                 if (if b0 = 224 then 160 else 128) \<le> b1
                    \<and> b1 \<le> (if b0 = 237 then 159 else 191) \<and> cont b2
                 then ((b0 - 224) * 4096 + (b1 - 128) * 64 + (b2 - 128), 3)
                 else (65533, 1)
             | _ \<Rightarrow> (65533, 1))
          else if 240 \<le> b0 \<and> b0 \<le> 244 then
            (case r of
               b1 # b2 # b3 # r3 \<Rightarrow>
                 if (if b0 = 240 then 144 else 128) \<le> b1
                    \<and> b1 \<le> (if b0 = 244 then 143 else 191) \<and> cont b2 \<and> cont b3
                 then ((b0 - 240) * 262144 + (b1 - 128) * 4096 + (b2 - 128) * 64 + (b3 - 128), 4)
                 else (65533, 1)
             | _ \<Rightarrow> (65533, 1))
          else (65533, 1))"

fun runes :: "int list \<Rightarrow> int list" where
  \<comment> \<open>the code points of a string, as \<^verbatim>\<open>range\<close> over a string yields them\<close>
  "runes [] = []"
| "runes (b0 # r) =
     fst (DecodeRune (b0 # r)) # runes (drop (snd (DecodeRune (b0 # r)) - 1) r)"

definition EncodeRune :: "int \<Rightarrow> int list" where
  \<comment> \<open>\<^verbatim>\<open>utf8.AppendRune\<close>; surrogates and values past U+10FFFF are written as U+FFFD\<close>
  "EncodeRune r =
     (if r < 128 then [r]
      else if r < 2048 then [192 + r div 64, 128 + r mod 64]
      else if 1114111 < r \<or> (55296 \<le> r \<and> r \<le> 57343) then [239, 191, 189]
      else if r < 65536 then [224 + r div 4096, 128 + r div 64 mod 64, 128 + r mod 64]
      else [240 + r div 262144, 128 + r div 4096 mod 64, 128 + r div 64 mod 64,
            128 + r mod 64])"

definition ToLower :: "(int \<Rightarrow> int) \<Rightarrow> string \<Rightarrow> string" where
  "ToLower unicode_ToLower s =
     (if list_all is_ascii s then map ascii_lower s
      else map char_of
             (concat (map (\<lambda>c. EncodeRune (unicode_ToLower c)) (runes (map of_char s)))))"

definition simple_case_rows :: "int \<Rightarrow> int" where
  \<comment> \<open>the rows of the Unicode case table for \<^verbatim>\<open>A\<close>..\<^verbatim>\<open>Z\<close> and for U+0130, LATIN CAPITAL LETTER I
      WITH DOT ABOVE, whose lower case is \<^verbatim>\<open>i\<close>; code points of other rows are left as they
      are, so this table stands for \<^verbatim>\<open>unicode.ToLower\<close> on strings of these code points and
      of code points without case\<close>
  "simple_case_rows r =
     (if 65 \<le> r \<and> r \<le> 90 then r + 32 else if r = 304 then 105 else r)"

definition validateMimeType :: "(int \<Rightarrow> int) \<Rightarrow> blobInfo \<Rightarrow> bool" where
  \<comment> \<open>a Go map read of a missing key gives the zero value \<^verbatim>\<open>false\<close>\<close>
  "validateMimeType unicode_ToLower blob =
     (let mimeType = ToLower unicode_ToLower (ContentType blob)
      in case allowedMimeTypes mimeType of None \<Rightarrow> False | Some match \<Rightarrow> match)"

section \<open>Options, collaborators and state\<close>

datatype error = Error string

type_synonym http_Request = nat
type_synonym appengine_Context = nat
type_synonym blobstore_Writer = nat
type_synonym url_Values = "string \<rightharpoonup> string list"

record compressionOptions =
  Quality :: int
  Size :: int
  Request :: http_Request
  Context :: appengine_Context

definition NewCompressionOptions ::
  "(http_Request \<Rightarrow> appengine_Context) \<Rightarrow> http_Request \<Rightarrow> compressionOptions" where
  \<comment> \<open>the first argument is \<^verbatim>\<open>appengine.NewContext\<close>\<close>
  "NewCompressionOptions NewContext r =
     \<lparr>Quality = 75, Size = 0, Request = r, Context = NewContext r\<rparr>"

text \<open>
  A slice \<^verbatim>\<open>[]*blobstore.BlobInfo\<close> is a window of \<open>slice_len\<close> cells starting at address
  \<open>slice_base\<close> of the memory \<open>heap\<close>; two slices with the same base share their cells.
\<close>

record slice =
  slice_base :: nat
  slice_len :: nat

type_synonym heap = "nat \<Rightarrow> blobInfo"

text \<open>
  The calls the package makes to its collaborators, in order, each with its arguments and
  whether it returned a nil error.
\<close>

datatype call =
    Call_Decode blobKey bool
  | Call_Resize int int
  | Call_Create string bool
  | Call_Encode int bool
  | Call_Close bool
  | Call_Key bool
  | Call_Stat blobKey bool
  | Call_Delete blobKey bool

record 'w state =
  world :: 'w
  heap :: heap
  calls :: "call list"

text \<open>
  The collaborators are the App Engine blobstore, the Go image packages and the resize
  package. None of them is part of this package, so each is a parameter: a function on the
  collaborators' own state \<open>'w\<close> that returns its result, \<open>Inl\<close> for a non-nil error.
  \<open>image_Decode\<close> stands for \<^verbatim>\<open>blobstore.NewReader\<close> followed by \<^verbatim>\<open>image.Decode\<close>;
  \<open>Bounds_Max\<close> is \<^verbatim>\<open>img.Bounds().Max\<close>; \<open>mapiter\<close> is the order in which the Go runtime
  ranges over a map.
\<close>

record ('w, 'img) collaborators =
  unicode_ToLower :: "int \<Rightarrow> int"
  mapiter :: "(string \<rightharpoonup> slice) \<Rightarrow> string list"
  blobstore_ParseUpload ::
    "http_Request \<Rightarrow> 'w \<Rightarrow> heap \<Rightarrow>
       ((string \<rightharpoonup> slice) \<times> url_Values \<times> error option) \<times> 'w \<times> heap"
  image_Decode :: "appengine_Context \<Rightarrow> blobKey \<Rightarrow> 'w \<Rightarrow> (error + 'img) \<times> 'w"
  Bounds_Max :: "'img \<Rightarrow> int \<times> int"
  resize_Resize :: "'img \<Rightarrow> int \<Rightarrow> int \<Rightarrow> 'img"
  blobstore_Create ::
    "appengine_Context \<Rightarrow> string \<Rightarrow> 'w \<Rightarrow> (error + blobstore_Writer) \<times> 'w"
  jpeg_Encode :: "blobstore_Writer \<Rightarrow> 'img \<Rightarrow> int \<Rightarrow> 'w \<Rightarrow> (error + unit) \<times> 'w"
  Writer_Close :: "blobstore_Writer \<Rightarrow> 'w \<Rightarrow> (error + unit) \<times> 'w"
  Writer_Key :: "blobstore_Writer \<Rightarrow> 'w \<Rightarrow> (error + blobKey) \<times> 'w"
  blobstore_Stat :: "appengine_Context \<Rightarrow> blobKey \<Rightarrow> 'w \<Rightarrow> (error + blobInfo) \<times> 'w"
  blobstore_Delete :: "appengine_Context \<Rightarrow> blobKey \<Rightarrow> 'w \<Rightarrow> (error + unit) \<times> 'w"

definition succeeded :: "error + 'a \<Rightarrow> bool" where
  "succeeded r = (case r of Inl err \<Rightarrow> False | Inr v \<Rightarrow> True)"

definition do_call ::
  "('w \<Rightarrow> (error + 'a) \<times> 'w) \<Rightarrow> (bool \<Rightarrow> call) \<Rightarrow> 'w state \<Rightarrow> (error + 'a) \<times> 'w state" where
  \<comment> \<open>runs one collaborator call on the world and appends it to the log\<close>
  "do_call f ev s =
     (case f (world s) of
        (r, w') \<Rightarrow> (r, s\<lparr>world := w', calls := calls s @ [ev (succeeded r)]\<rparr>))"

section \<open>handleBlob\<close>

definition resize_target :: "int \<Rightarrow> int \<Rightarrow> int \<Rightarrow> (int \<times> int) option" where
  \<comment> \<open>the block under \<^verbatim>\<open>// Resize if necessary\<close>: \<open>None\<close> when the condition is false,
      otherwise the \<^verbatim>\<open>size_x\<close>, \<^verbatim>\<open>size_y\<close> passed to \<^verbatim>\<open>resize.Resize\<close>; \<open>sz\<close> is \<^verbatim>\<open>options.Size\<close>\<close>
  "resize_target sz Max_X Max_Y =
     (if sz > 0 \<and> (Max_X > sz \<or> Max_Y > sz) then
        let size_x = Max_X;
            size_y = Max_Y;
            (size_x, size_y) =
              (if size_x > sz then
                 let size_x_before = size_x;
                     size_x = sz
                 in (size_x, scale size_y size_x size_x_before)
               else (size_x, size_y));
            (size_x, size_y) =
              (if size_y > sz then
                 let size_y_before = size_y;
                     size_y = sz
                 in (scale size_x size_y size_y_before, size_y)
               else (size_x, size_y))
        in Some (size_x, size_y)
      else None)"

definition deleteOldBlob ::
  "('w, 'img) collaborators \<Rightarrow> compressionOptions \<Rightarrow> blobKey \<Rightarrow> 'w state \<Rightarrow> 'w state" where
  \<comment> \<open>the error of \<^verbatim>\<open>blobstore.Delete\<close> is discarded\<close>
  "deleteOldBlob env options blobkey s =
     snd (do_call (blobstore_Delete env (Context options) blobkey) (Call_Delete blobkey) s)"

definition handleBlob ::
  "('w, 'img) collaborators \<Rightarrow> compressionOptions \<Rightarrow> blobInfo \<Rightarrow> 'w state \<Rightarrow>
     blobInfo \<times> 'w state" where
  "handleBlob env options blobOriginal s0 =
     (let blob = blobOriginal in
      if \<not> validateMimeType (unicode_ToLower env) blob then (blob, s0)
      else
        case do_call (image_Decode env (Context options) (BlobKey blob))
               (Call_Decode (BlobKey blob)) s0 of
          (Inl err, s1) \<Rightarrow> (blob, s1)
        | (Inr img, s1) \<Rightarrow>
            let (img, s2) =
                  (case resize_target (Size options) (fst (Bounds_Max env img))
                          (snd (Bounds_Max env img)) of
                     None \<Rightarrow> (img, s1)
                   | Some (size_x, size_y) \<Rightarrow>
                       (resize_Resize env img size_x size_y,
                        s1\<lparr>calls := calls s1 @ [Call_Resize size_x size_y]\<rparr>))
            in
              case do_call (blobstore_Create env (Context options) ''image/jpeg'')
                     (Call_Create ''image/jpeg'') s2 of
                (Inl err, s3) \<Rightarrow> (blob, s3)
              | (Inr writer, s3) \<Rightarrow>
                  (case do_call (jpeg_Encode env writer img (Quality options))
                          (Call_Encode (Quality options)) s3 of
                     (Inl err, s4) \<Rightarrow>
                       (blob, snd (do_call (Writer_Close env writer) Call_Close s4))
                   | (Inr u, s4) \<Rightarrow>
                       (case do_call (Writer_Close env writer) Call_Close s4 of
                          (Inl err, s5) \<Rightarrow> (blob, s5)
                        | (Inr u, s5) \<Rightarrow>
                            (case do_call (Writer_Key env writer) Call_Key s5 of
                               (Inl err, s6) \<Rightarrow> (blob, s6)
                             | (Inr newKey, s6) \<Rightarrow>
                                 (case do_call (blobstore_Stat env (Context options) newKey)
                                         (Call_Stat newKey) s6 of
                                    (Inl err, s7) \<Rightarrow> (blob, s7)
                                  | (Inr newBlobInfo, s7) \<Rightarrow>
                                      (newBlobInfo,
                                       deleteOldBlob env options (BlobKey blob) s7))))))"

section \<open>handleBlobSlice and ParseBlobs\<close>

fun handleBlobSlice_range ::
  "('w, 'img) collaborators \<Rightarrow> compressionOptions \<Rightarrow> slice \<Rightarrow> nat list \<Rightarrow> 'w state \<Rightarrow>
     'w state" where
  \<comment> \<open>the body of \<^verbatim>\<open>for index, blobInfo := range blobSlice\<close>, once per index\<close>
  "handleBlobSlice_range env options blobSlice [] s = s"
| "handleBlobSlice_range env options blobSlice (index # rest) s =
     (let blobInfo = heap s (slice_base blobSlice + index);
          (blob, s') = handleBlob env options blobInfo s
      in handleBlobSlice_range env options blobSlice rest
           (s'\<lparr>heap := (heap s')(slice_base blobSlice + index := blob)\<rparr>))"

definition handleBlobSlice ::
  "('w, 'img) collaborators \<Rightarrow> compressionOptions \<Rightarrow> slice \<Rightarrow> 'w state \<Rightarrow>
     slice \<times> 'w state" where
  "handleBlobSlice env options blobSliceOriginal s =
     (let blobSlice = blobSliceOriginal
      in (blobSlice,
          handleBlobSlice_range env options blobSlice [0..<slice_len blobSlice] s))"

fun ParseBlobs_range ::
  "('w, 'img) collaborators \<Rightarrow> compressionOptions \<Rightarrow> string list \<Rightarrow>
     (string \<rightharpoonup> slice) \<Rightarrow> 'w state \<Rightarrow> (string \<rightharpoonup> slice) \<times> 'w state" where
  \<comment> \<open>the body of \<^verbatim>\<open>for keyName, blobSlice := range blobs\<close>, once per key\<close>
  "ParseBlobs_range env options [] blobs s = (blobs, s)"
| "ParseBlobs_range env options (keyName # rest) blobs s =
     (case blobs keyName of
        None \<Rightarrow> ParseBlobs_range env options rest blobs s
      | Some blobSlice \<Rightarrow>
          let (r, s') = handleBlobSlice env options blobSlice s
          in ParseBlobs_range env options rest (blobs(keyName \<mapsto> r)) s')"

definition ParseBlobs ::
  "('w, 'img) collaborators \<Rightarrow> compressionOptions \<Rightarrow> 'w state \<Rightarrow>
     ((string \<rightharpoonup> slice) \<times> url_Values \<times> error option) \<times> 'w state" where
  "ParseBlobs env options s =
     (case blobstore_ParseUpload env (Request options) (world s) (heap s) of
        ((blobs, other, err), w', h') \<Rightarrow>
          let s1 = s\<lparr>world := w', heap := h'\<rparr>
          in if err \<noteq> None then ((blobs, other, err), s1)
             else
               let (blobs, s2) = ParseBlobs_range env options (mapiter env blobs) blobs s1
               in ((blobs, other, err), s2))"

section \<open>An in-memory blobstore\<close>

text \<open>
  A small implementation of the collaborators, used to run the package on concrete uploads.
  A stored object carries its content type and, when it is an image, its pixel dimensions;
  an image value is its pair of dimensions. \<open>mem_failing\<close> names the operations that are
  made to fail. New keys are \<^verbatim>\<open>n\<close>, \<^verbatim>\<open>nn\<close>, \<^verbatim>\<open>nnn\<close>, ... in the order of creation.
\<close>

datatype content = Pixels int int | Bytes

record mem_writer =
  wr_mime :: string
  wr_content :: "content option"
  wr_key :: "blobKey option"

record memstore =
  mem_objects :: "blobKey \<rightharpoonup> string \<times> content"
  mem_writers :: "blobstore_Writer \<rightharpoonup> mem_writer"
  mem_next :: nat
  mem_failing :: "string list"
  mem_upload :: "(string \<rightharpoonup> slice) \<times> url_Values \<times> error option"

definition mem_fail :: "string \<Rightarrow> memstore \<Rightarrow> bool" where
  "mem_fail opname w = (opname \<in> set (mem_failing w))"

definition mem_Decode :: "appengine_Context \<Rightarrow> blobKey \<Rightarrow> memstore \<Rightarrow> (error + int \<times> int) \<times> memstore" where
  "mem_Decode c key w =
     (if mem_fail ''decode'' w then (Inl (Error ''decode''), w)
      else case mem_objects w key of
             Some (mime, Pixels x y) \<Rightarrow> (Inr (x, y), w)
           | _ \<Rightarrow> (Inl (Error ''image: unknown format''), w))"

definition mem_Create ::
  "appengine_Context \<Rightarrow> string \<Rightarrow> memstore \<Rightarrow> (error + blobstore_Writer) \<times> memstore" where
  "mem_Create c mime w =
     (if mem_fail ''create'' w then (Inl (Error ''create''), w)
      else (Inr (mem_next w),
            w\<lparr>mem_writers := (mem_writers w)(mem_next w \<mapsto>
                 \<lparr>wr_mime = mime, wr_content = None, wr_key = None\<rparr>),
              mem_next := Suc (mem_next w)\<rparr>))"

definition mem_Encode ::
  "blobstore_Writer \<Rightarrow> int \<times> int \<Rightarrow> int \<Rightarrow> memstore \<Rightarrow> (error + unit) \<times> memstore" where
  "mem_Encode wr img quality w =
     (if mem_fail ''encode'' w then (Inl (Error ''encode''), w)
      else case mem_writers w wr of
             None \<Rightarrow> (Inl (Error ''no writer''), w)
           | Some r \<Rightarrow>
               (Inr (),
                w\<lparr>mem_writers := (mem_writers w)(wr \<mapsto>
                     r\<lparr>wr_content := Some (Pixels (fst img) (snd img))\<rparr>)\<rparr>))"

definition mem_Close :: "blobstore_Writer \<Rightarrow> memstore \<Rightarrow> (error + unit) \<times> memstore" where
  "mem_Close wr w =
     (if mem_fail ''close'' w then (Inl (Error ''close''), w)
      else case mem_writers w wr of
             None \<Rightarrow> (Inl (Error ''no writer''), w)
           | Some r \<Rightarrow>
               let key = replicate (Suc wr) (CHR ''n'')
               in (Inr (),
                   w\<lparr>mem_objects := (mem_objects w)(key \<mapsto>
                        (wr_mime r, case wr_content r of None \<Rightarrow> Bytes | Some c \<Rightarrow> c)),
                     mem_writers := (mem_writers w)(wr \<mapsto> r\<lparr>wr_key := Some key\<rparr>)\<rparr>))"

definition mem_Key :: "blobstore_Writer \<Rightarrow> memstore \<Rightarrow> (error + blobKey) \<times> memstore" where
  "mem_Key wr w =
     (if mem_fail ''key'' w then (Inl (Error ''key''), w)
      else case mem_writers w wr of
             None \<Rightarrow> (Inl (Error ''no writer''), w)
           | Some r \<Rightarrow>
               (case wr_key r of
                  None \<Rightarrow> (Inl (Error ''writer not closed''), w)
                | Some key \<Rightarrow> (Inr key, w)))"

definition mem_Stat :: "appengine_Context \<Rightarrow> blobKey \<Rightarrow> memstore \<Rightarrow> (error + blobInfo) \<times> memstore" where
  "mem_Stat c key w =
     (if mem_fail ''stat'' w then (Inl (Error ''stat''), w)
      else case mem_objects w key of
             None \<Rightarrow> (Inl (Error ''no such blob''), w)
           | Some (mime, body) \<Rightarrow>
               (Inr \<lparr>BlobKey = key, ContentType = mime, CreationTime = 0, Filename = [],
                     ByteSize = 0\<rparr>, w))"

definition mem_Delete :: "appengine_Context \<Rightarrow> blobKey \<Rightarrow> memstore \<Rightarrow> (error + unit) \<times> memstore" where
  "mem_Delete c key w =
     (if mem_fail ''delete'' w then (Inl (Error ''delete''), w)
      else (Inr (), w\<lparr>mem_objects := (mem_objects w)(key := None)\<rparr>))"

definition mem_env :: "string list \<Rightarrow> (memstore, int \<times> int) collaborators" where
  \<comment> \<open>the argument is the order in which the fields of the upload are visited\<close>
  "mem_env order =
     \<lparr>unicode_ToLower = simple_case_rows,
      mapiter = (\<lambda>blobs. order),
      blobstore_ParseUpload = (\<lambda>r w h. (mem_upload w, w, h)),
      image_Decode = mem_Decode,
      Bounds_Max = (\<lambda>img. img),
      resize_Resize = (\<lambda>img x y. (x, y)),
      blobstore_Create = mem_Create,
      jpeg_Encode = mem_Encode,
      Writer_Close = mem_Close,
      Writer_Key = mem_Key,
      blobstore_Stat = mem_Stat,
      blobstore_Delete = mem_Delete\<rparr>"

definition mem_blob :: "blobKey \<Rightarrow> string \<Rightarrow> blobInfo" where
  "mem_blob key mime =
     \<lparr>BlobKey = key, ContentType = mime, CreationTime = 0, Filename = [], ByteSize = 0\<rparr>"

section \<open>Reading the call log and the memory\<close>

definition new_calls :: "'w state \<Rightarrow> 'w state \<Rightarrow> call list" where
  \<comment> \<open>the calls a run from \<open>s\<close> to \<open>s'\<close> has added to the log\<close>
  "new_calls s s' = drop (length (calls s)) (calls s')"

definition encoded_image ::
  "('w, 'img) collaborators \<Rightarrow> compressionOptions \<Rightarrow> 'img \<Rightarrow> 'img" where
  \<comment> \<open>the value of \<^verbatim>\<open>img\<close> after the resize block of \<^verbatim>\<open>handleBlob\<close>, which \<^verbatim>\<open>jpeg.Encode\<close> gets\<close>
  "encoded_image env options img =
     (case resize_target (Size options) (fst (Bounds_Max env img)) (snd (Bounds_Max env img)) of
        None \<Rightarrow> img
      | Some (size_x, size_y) \<Rightarrow> resize_Resize env img size_x size_y)"

definition resize_calls ::
  "('w, 'img) collaborators \<Rightarrow> compressionOptions \<Rightarrow> 'img \<Rightarrow> call list" where
  \<comment> \<open>the call to \<^verbatim>\<open>resize.Resize\<close> that the resize block makes, if any\<close>
  "resize_calls env options img =
     (case resize_target (Size options) (fst (Bounds_Max env img)) (snd (Bounds_Max env img)) of
        None \<Rightarrow> []
      | Some (size_x, size_y) \<Rightarrow> [Call_Resize size_x size_y])"


definition call_ok :: "call \<Rightarrow> bool" where
  "call_ok c = (case c of
      Call_Decode k ok \<Rightarrow> ok | Call_Resize x y \<Rightarrow> True | Call_Create m ok \<Rightarrow> ok
    | Call_Encode q ok \<Rightarrow> ok | Call_Close ok \<Rightarrow> ok | Call_Key ok \<Rightarrow> ok
    | Call_Stat k ok \<Rightarrow> ok | Call_Delete k ok \<Rightarrow> ok)"

definition is_Delete :: "call \<Rightarrow> bool" where
  "is_Delete c = (case c of Call_Delete k ok \<Rightarrow> True | _ \<Rightarrow> False)"

section \<open>Scenarios\<close>

definition mem_state :: "string list \<Rightarrow> string \<Rightarrow> int \<Rightarrow> int \<Rightarrow> memstore state" where
  \<comment> \<open>one stored image \<^verbatim>\<open>old\<close>, uploaded in field \<^verbatim>\<open>photo\<close>\<close>
  "mem_state failing mime x y =
     \<lparr>world =
        \<lparr>mem_objects = [''old'' \<mapsto> (mime, Pixels x y)], mem_writers = Map.empty, mem_next = 0,
         mem_failing = failing,
         mem_upload = ([''photo'' \<mapsto> \<lparr>slice_base = 0, slice_len = 1\<rparr>], Map.empty, None)\<rparr>,
      heap = (\<lambda>a. mem_blob ''old'' mime),
      calls = []\<rparr>"


definition photo_options :: compressionOptions where
  "photo_options = \<lparr>Quality = 75, Size = 1600, Request = 0, Context = 0\<rparr>"

section \<open>Properties\<close>

subsection \<open>Rounding\<close>

text \<open>
  Rounding is exact on the integers below \<open>2 ^ 53\<close> and has a relative error of at most
  \<open>1 / 2 ^ 53\<close> on every positive rational. Hence \<open>scale y a b\<close> never exceeds \<open>y\<close> when
  \<open>a < b\<close>, and differs from the exact floor of \<open>y * a / b\<close> only when \<open>b\<close> divides
  \<open>y * a\<close>, and then by one at most.
\<close>

lemma shl_ratio:
  "q \<noteq> 0 \<Longrightarrow> (of_int (shl p s) :: rat) / of_int (shl q (- s)) = of_int p / of_int q * 2 powi s"
proof (cases "0 \<le> s")
  case True
  assume "q \<noteq> 0"
  with True show ?thesis
    by (simp add: shl_def power_int_def)
next
  case False
  assume "q \<noteq> 0"
  with False show ?thesis
    by (simp add: shl_def power_int_def field_simps)
qed

lemma shl_value:
  "(of_int (shl n (- s)) :: rat) / of_int (shl 1 s) = of_int n * 2 powi (- s)"
  using shl_ratio [of 1 n "- s"] by (simp add: shl_def)

lemma test_exponent:
  "0 < q \<Longrightarrow> (shl q k \<le> shl p (- k)) = ((2::rat) powi k \<le> of_int p / of_int q)"
proof (cases "0 \<le> k")
  case True
  assume q: "0 < q"
  have "(shl q k \<le> shl p (- k)) = (q * 2 ^ nat k \<le> p)"
    using True by (simp add: shl_def)
  also have "\<dots> = ((of_int (q * 2 ^ nat k) :: rat) \<le> of_int p)"
    by (simp only: of_int_le_iff)
  also have "\<dots> = ((2::rat) powi k \<le> of_int p / of_int q)"
    using q True by (simp add: power_int_def field_simps)
  finally show ?thesis .
next
  case False
  assume q: "0 < q"
  have "(shl q k \<le> shl p (- k)) = (q \<le> p * 2 ^ nat (- k))"
    using False by (simp add: shl_def)
  also have "\<dots> = ((of_int q :: rat) \<le> of_int (p * 2 ^ nat (- k)))"
    by (simp only: of_int_le_iff)
  also have "\<dots> = ((2::rat) powi k \<le> of_int p / of_int q)"
    using q False by (simp add: power_int_def field_simps)
  finally show ?thesis .
qed


lemma bitlen_powi:
  assumes "0 < p"
  shows "(2::rat) powi (bitlen p - 1) \<le> of_int p" and "(of_int p :: rat) < 2 powi bitlen p"
proof -
  from assms have b: "1 \<le> bitlen p"
    using bitlen_eq_zero_iff [of p] bitlen_nonneg [of p] by linarith
  from bitlen_bounds [OF assms] have l: "2 ^ nat (bitlen p - 1) \<le> p" and u: "p < 2 ^ nat (bitlen p)"
    by simp_all
  from l have "(of_int (2 ^ nat (bitlen p - 1)) :: rat) \<le> of_int p"
    by (simp only: of_int_le_iff)
  then show "(2::rat) powi (bitlen p - 1) \<le> of_int p"
    using b by (simp add: power_int_def)
  from u have "(of_int p :: rat) < of_int (2 ^ nat (bitlen p))"
    by (simp only: of_int_less_iff)
  then show "(of_int p :: rat) < 2 powi bitlen p"
    using b by (simp add: power_int_def)
qed

lemma exponent_bounds:
  assumes p: "0 < p" and q: "0 < q"
  defines "x \<equiv> (of_int p :: rat) / of_int q"
  defines "k \<equiv> bitlen p - bitlen q"
  defines "e \<equiv> (if 2 powi k \<le> x then k else k - 1)"
  shows "2 powi e \<le> x" and "x < 2 powi (e + 1)"
proof -
  have qp: "(0::rat) < of_int q" and pp: "(0::rat) < of_int p"
    using p q by simp_all
  have up: "x < 2 powi (k + 1)"
  proof -
    have "x < 2 powi bitlen p / of_int q"
      unfolding x_def using bitlen_powi(2) [OF p] qp by (simp add: divide_strict_right_mono)
    also have "\<dots> \<le> 2 powi bitlen p / 2 powi (bitlen q - 1)"
      using bitlen_powi(1) [OF q] by (simp add: frac_le)
    also have "\<dots> = 2 powi (k + 1)"
      by (simp add: k_def power_int_diff power_int_add)
    finally show ?thesis .
  qed
  have lo: "2 powi (k - 1) < x"
  proof -
    have "(2::rat) powi (k - 1) = 2 powi (bitlen p - 1) / 2 powi bitlen q"
      by (simp add: k_def power_int_diff)
    also have "\<dots> \<le> of_int p / 2 powi bitlen q"
      using bitlen_powi(1) [OF p] by (simp add: divide_right_mono)
    also have "\<dots> < x"
      unfolding x_def using bitlen_powi(2) [OF q] pp qp by (simp add: divide_strict_left_mono)
    finally show ?thesis .
  qed
  show "2 powi e \<le> x"
    using lo by (auto simp: e_def)
  show "x < 2 powi (e + 1)"
    using up by (auto simp: e_def not_le)
qed


lemma nearest_int:
  fixes P Q :: int
  assumes Q: "0 < Q"
  defines "n \<equiv> P div Q" and "r \<equiv> P mod Q"
  defines "n' \<equiv> (if 2 * r < Q then n else if Q < 2 * r then n + 1
                   else if even n then n else n + 1)"
  shows "\<bar>(of_int n' :: rat) - of_int P / of_int Q\<bar> \<le> 1 / 2"
proof -
  have r0: "0 \<le> r" and rQ: "r < Q"
    using Q by (simp_all add: r_def)
  have "P = n * Q + r"
    by (simp add: n_def r_def)
  then have "(of_int P :: rat) = of_int n * of_int Q + of_int r"
    by (metis of_int_add of_int_mult)
  then have t: "(of_int P :: rat) / of_int Q = of_int n + of_int r / of_int Q"
    using Q by (simp add: field_simps)
  have lo: "(0::rat) \<le> of_int r / of_int Q"
    using r0 Q by simp
  have hi: "(of_int r :: rat) / of_int Q < 1"
    using rQ Q by simp
  consider "2 * r < Q" | "Q < 2 * r" | "2 * r = Q"
    by linarith
  then show ?thesis
  proof cases
    case 1
    then have "(of_int (2 * r) :: rat) < of_int Q"
      by (simp only: of_int_less_iff)
    then have "(of_int r :: rat) / of_int Q < 1 / 2"
      using Q by (simp add: field_simps)
    with 1 lo show ?thesis
      by (simp add: n'_def t)
  next
    case 2
    then have "(of_int Q :: rat) < of_int (2 * r)"
      by (simp only: of_int_less_iff)
    then have "1 / 2 < (of_int r :: rat) / of_int Q"
      using Q by (simp add: field_simps)
    with 2 hi show ?thesis
      by (simp add: n'_def t abs_if)
  next
    case 3
    then have "(of_int Q :: rat) = of_int (2 * r)"
      by simp
    then have h: "(of_int r :: rat) / of_int Q = 1 / 2"
      using Q by (simp add: field_simps)
    from 3 have "\<not> 2 * r < Q" "\<not> Q < 2 * r"
      by simp_all
    then show ?thesis
      unfolding n'_def t h by (simp add: abs_if)
  qed
qed

lemma round_ratio_error:
  assumes p: "0 < p" and q: "0 < q"
  shows "\<bar>round_ratio p q - of_int p / of_int q\<bar> \<le> (of_int p / of_int q) / 2 ^ 53"
proof -
  define x :: rat where "x = of_int p / of_int q"
  define k where "k = bitlen p - bitlen q"
  define e where "e = (if shl q k \<le> shl p (- k) then k else k - 1)"
  define s where "s = 52 - e"
  define P where "P = shl p s"
  define Q where "Q = shl q (- s)"
  define n' where "n' = (if 2 * (P mod Q) < Q then P div Q else if Q < 2 * (P mod Q) then P div Q + 1
                   else if even (P div Q) then P div Q else P div Q + 1)"
  from p have pn: "p \<noteq> 0"
    by simp
  have "round_ratio p q = of_int (shl n' (- s)) / of_int (shl 1 s)"
    unfolding round_ratio_def Let_def n'_def P_def Q_def s_def e_def k_def if_not_P [OF pn]
    by (rule refl)
  then have rr: "round_ratio p q = of_int n' * 2 powi (- s)"
    by (simp only: shl_value)
  have e': "e = (if 2 powi k \<le> x then k else k - 1)"
    unfolding e_def x_def using test_exponent [OF q, of k p] by simp
  have le: "2 powi e \<le> x"
    unfolding e' x_def k_def by (rule exponent_bounds(1) [OF p q])
  have Qpos: "0 < Q"
    using q by (simp add: Q_def shl_def)
  have t: "(of_int P :: rat) / of_int Q = x * 2 powi s"
    unfolding P_def Q_def x_def using q by (simp add: shl_ratio)
  have near: "\<bar>(of_int n' :: rat) - x * 2 powi s\<bar> \<le> 1 / 2"
    using nearest_int [OF Qpos, of P] unfolding n'_def t .
  have pos: "(0::rat) < 2 powi (- s)"
    by simp
  have "round_ratio p q - x = (of_int n' - x * 2 powi s) * 2 powi (- s)"
    by (simp add: rr algebra_simps power_int_minus)
  then have "\<bar>round_ratio p q - x\<bar> = \<bar>of_int n' - x * 2 powi s\<bar> * 2 powi (- s)"
    using pos by (simp add: abs_mult)
  also have "\<dots> \<le> 1 / 2 * 2 powi (- s)"
    using near pos by (simp add: mult_right_mono)
  also have "\<dots> = 2 powi e / 2 ^ 53"
    by (simp add: s_def power_int_diff power_int_minus field_simps)
  also have "\<dots> \<le> x / 2 ^ 53"
    using le by (simp add: divide_right_mono)
  finally show ?thesis
    unfolding x_def .
qed


lemma fl_zero: "fl 0 = 0"
  by (simp add: fl_def round_ratio_def)

lemma fl_error:
  assumes "0 < x"
  shows "\<bar>fl x - x\<bar> \<le> x / 2 ^ 53"
proof -
  obtain p q where pq: "quotient_of x = (p, q)"
    by fastforce
  have q: "0 < q"
    using pq by (rule quotient_of_denom_pos)
  have x: "x = of_int p / of_int q"
    using pq by (rule quotient_of_div)
  from assms x q have p: "0 < p"
    by (simp add: zero_less_divide_iff)
  then have "fl x = round_ratio p q"
    by (simp add: fl_def pq)
  with round_ratio_error [OF p q] x show ?thesis
    by simp
qed

lemma round_ratio_int:
  assumes n: "0 < n" and b: "n < 2 ^ 53"
  shows "round_ratio n 1 = of_int n"
proof -
  define k where "k = bitlen n - bitlen 1"
  define e where "e = (if shl 1 k \<le> shl n (- k) then k else k - 1)"
  define s where "s = 52 - e"
  define P where "P = shl n s"
  define Q where "Q = shl 1 (- s)"
  define n' where "n' = (if 2 * (P mod Q) < Q then P div Q else if Q < 2 * (P mod Q) then P div Q + 1
                   else if even (P div Q) then P div Q else P div Q + 1)"
  from n have pn: "n \<noteq> 0"
    by simp
  have rr: "round_ratio n 1 = of_int (shl n' (- s)) / of_int (shl 1 s)"
    unfolding round_ratio_def Let_def n'_def P_def Q_def s_def e_def k_def if_not_P [OF pn]
    by (rule refl)
  have b1: "bitlen 1 = 1"
    by (simp add: bitlen_alt_def)
  from n have k0: "0 \<le> k"
    using bitlen_eq_zero_iff [of n] bitlen_nonneg [of n] by (simp add: k_def b1)
  from b have "bitlen n \<le> 53"
    by (simp add: bitlen_le_iff_power)
  then have k52: "k \<le> 52"
    by (simp add: k_def b1)
  have "2 ^ nat k \<le> n"
    using bitlen_bounds [OF n] by (simp add: k_def b1)
  then have "e = k"
    using k0 by (simp add: e_def shl_def)
  then have s0: "0 \<le> s"
    using k52 by (simp add: s_def)
  then have Q1: "Q = 1"
    by (simp add: Q_def shl_def)
  then have "n' = P"
    by (simp add: n'_def)
  then show ?thesis
    using s0 by (simp add: rr P_def shl_def)
qed

lemma fl_int:
  assumes "0 \<le> n" and "n < 2 ^ 53"
  shows "fl (of_int n) = of_int n"
proof (cases "n = 0")
  case True
  then show ?thesis by (simp add: fl_zero)
next
  case False
  with assms have "0 < n" by simp
  with assms round_ratio_int [of n] show ?thesis
    by (simp add: fl_def)
qed

lemma fl_bounds:
  assumes "0 < x"
  shows "x * (1 - 1 / 2 ^ 53) \<le> fl x" and "fl x \<le> x * (1 + 1 / 2 ^ 53)"
proof -
  from fl_error [OF assms] have "fl x - x \<le> x / 2 ^ 53" and "- (fl x - x) \<le> x / 2 ^ 53"
    by (rule abs_le_D1, rule abs_le_D2)
  then show "x * (1 - 1 / 2 ^ 53) \<le> fl x" and "fl x \<le> x * (1 + 1 / 2 ^ 53)"
    by (simp_all add: algebra_simps)
qed

lemma floor_product_factors:
  assumes y: "0 \<le> y" "y < 2 ^ 53" and a: "0 < a" "a < 2 ^ 53" and b: "0 < b" "b < 2 ^ 53"
  shows "\<exists>(c::rat) (F::rat). floor_product y a b = \<lfloor>F\<rfloor> \<and>
           of_int a / of_int b * (1 - 1 / 2 ^ 53) \<le> c \<and>
           c \<le> of_int a / of_int b * (1 + 1 / 2 ^ 53) \<and>
           of_int y * c * (1 - 1 / 2 ^ 53) \<le> F \<and>
           F \<le> of_int y * c * (1 + 1 / 2 ^ 53)"
proof -
  define c where "c = fl (of_int a / of_int b)"
  define F where "F = fl (of_int y * c)"
  have s: "floor_product y a b = \<lfloor>F\<rfloor>"
    using y a b by (simp add: floor_product_def fl_int F_def c_def)
  have r: "(0::rat) < of_int a / of_int b"
    using a b by simp
  have c1: "of_int a / of_int b * (1 - 1 / 2 ^ 53) \<le> c"
    and c2: "c \<le> of_int a / of_int b * (1 + 1 / 2 ^ 53)"
    unfolding c_def using fl_bounds [OF r] by simp_all
  have "(0::rat) < of_int a / of_int b * (1 - 1 / 2 ^ 53)"
    using r by simp
  with c1 have cpos: "0 < c"
    by linarith
  have "of_int y * c * (1 - 1 / 2 ^ 53) \<le> F \<and> F \<le> of_int y * c * (1 + 1 / 2 ^ 53)"
  proof (cases "y = 0")
    case True
    then show ?thesis by (simp add: F_def fl_zero)
  next
    case False
    with y have "(0::rat) < of_int y * c"
      using cpos by simp
    from fl_bounds [OF this] show ?thesis
      by (simp add: F_def)
  qed
  with s c1 c2 show ?thesis
    by blast
qed

lemma floor_product_le:
  assumes y: "0 \<le> y" "y < 2 ^ 53" and a: "0 < a" and ab: "a < b" and b: "b < 2 ^ 53"
  shows "0 \<le> floor_product y a b" and "floor_product y a b \<le> y"
proof -
  from a ab b have a53: "a < 2 ^ 53" and b0: "0 < b"
    by simp_all
  from floor_product_factors [OF y a a53 b0 b] obtain c F :: rat where
    s: "floor_product y a b = \<lfloor>F\<rfloor>"
    and c1: "of_int a / of_int b * (1 - 1 / 2 ^ 53) \<le> c"
    and c2: "c \<le> of_int a / of_int b * (1 + 1 / 2 ^ 53)"
    and F1: "of_int y * c * (1 - 1 / 2 ^ 53) \<le> F"
    and F2: "F \<le> of_int y * c * (1 + 1 / 2 ^ 53)"
    by blast
  have y0: "(0::rat) \<le> of_int y"
    using y by simp
  have "(0::rat) \<le> of_int a / of_int b * (1 - 1 / 2 ^ 53)"
    using a b0 by simp
  with c1 have c0: "0 \<le> c"
    by linarith
  then have "0 \<le> of_int y * c * (1 - 1 / 2 ^ 53)"
    using y0 by simp
  with F1 have "0 \<le> F"
    by linarith
  then show "0 \<le> floor_product y a b"
    by (simp add: s)
  have "(of_int a :: rat) < 2 ^ 53"
    using a53 by (metis of_int_less_iff of_int_numeral of_int_power)
  then have au: "(of_int a :: rat) / 2 ^ 53 < 1"
    by simp
  have "a + 1 \<le> b"
    using ab by simp
  then have ab1: "(of_int a :: rat) + 1 \<le> of_int b"
    by (metis of_int_le_iff of_int_add of_int_1)
  have "(of_int a :: rat) * (1 + 1 / 2 ^ 53) \<le> of_int b"
    using au ab1 by (simp add: algebra_simps)
  then have "(of_int a :: rat) / of_int b * (1 + 1 / 2 ^ 53) \<le> 1"
    using b0 by (simp add: field_simps)
  with c2 have c_le: "c \<le> 1"
    by linarith
  have "(of_int y :: rat) < 2 ^ 53"
    using y by (metis of_int_less_iff of_int_numeral of_int_power)
  then have yu: "(of_int y :: rat) / 2 ^ 53 < 1"
    by simp
  have "of_int y * c \<le> of_int y * 1"
    using c_le y0 by (rule mult_left_mono)
  then have "of_int y * c \<le> of_int y"
    by simp
  then have "of_int y * c * (1 + 1 / 2 ^ 53) \<le> of_int y * (1 + 1 / 2 ^ 53)"
    by (rule mult_right_mono) simp
  also have "\<dots> < of_int y + 1"
    using yu by (simp add: algebra_simps)
  finally have "F < of_int (y + 1)"
    using F2 by simp
  then have "\<lfloor>F\<rfloor> < y + 1"
    by (simp only: floor_less_iff)
  then show "floor_product y a b \<le> y"
    by (simp add: s)
qed


lemma floor_product_near:
  assumes y: "0 \<le> y" and a: "0 < a" "a < 2 ^ 53" and b: "0 < b" "b < 2 ^ 53"
    and ya: "y * a < 2 ^ 51"
  shows "\<exists>F::rat. floor_product y a b = \<lfloor>F\<rfloor> \<and>
           of_int (y * a) / of_int b - 1 / of_int b < F \<and>
           F < of_int (y * a) / of_int b + 1 / of_int b"
proof -
  define u :: rat where "u = 1 / 2 ^ 53"
  define E :: rat where "E = of_int (y * a) / of_int b"
  have "y * 1 \<le> y * a"
    using y a by (intro mult_left_mono) simp_all
  with ya have y53: "y < 2 ^ 53"
    by simp
  from floor_product_factors [OF y y53 a b] obtain c F :: rat where
    s: "floor_product y a b = \<lfloor>F\<rfloor>"
    and c1: "of_int a / of_int b * (1 - u) \<le> c"
    and c2: "c \<le> of_int a / of_int b * (1 + u)"
    and F1: "of_int y * c * (1 - u) \<le> F"
    and F2: "F \<le> of_int y * c * (1 + u)"
    unfolding u_def by blast
  have y0: "(0::rat) \<le> of_int y"
    using y by simp
  have bpos: "(0::rat) < of_int b"
    using b by simp
  have E0: "0 \<le> E"
    using y a b by (simp add: E_def)
  have u0: "0 \<le> 1 - u" "0 \<le> 1 + u"
    by (simp_all add: u_def)
  have Ey: "of_int y * (of_int a / of_int b) = E"
    by (simp add: E_def)
  have "of_int y * c \<le> of_int y * (of_int a / of_int b * (1 + u))"
    using c2 y0 by (rule mult_left_mono)
  then have yc2: "of_int y * c \<le> E * (1 + u)"
    by (simp add: Ey [symmetric] mult.assoc)
  have "of_int y * (of_int a / of_int b * (1 - u)) \<le> of_int y * c"
    using c1 y0 by (rule mult_left_mono)
  then have yc1: "E * (1 - u) \<le> of_int y * c"
    by (simp add: Ey [symmetric] mult.assoc)
  have "of_int y * c * (1 + u) \<le> E * (1 + u) * (1 + u)"
    using yc2 u0(2) by (rule mult_right_mono)
  with F2 have up: "F \<le> E * (1 + u) * (1 + u)"
    by linarith
  have "E * (1 - u) * (1 - u) \<le> of_int y * c * (1 - u)"
    using yc1 u0(1) by (rule mult_right_mono)
  with F1 have lo: "E * (1 - u) * (1 - u) \<le> F"
    by linarith
  have "y * a \<le> 2 ^ 51 - 1"
    using ya by simp
  then have "(of_int (y * a) :: rat) \<le> of_int (2 ^ 51 - 1)"
    by (simp only: of_int_le_iff)
  then have N: "E * of_int b \<le> 2 ^ 51 - 1"
    using bpos by (simp add: E_def)
  have K0: "0 \<le> 2 * u + u * u"
    by (simp add: u_def)
  have "E * of_int b * (2 * u + u * u) \<le> (2 ^ 51 - 1) * (2 * u + u * u)"
    using N K0 by (rule mult_right_mono)
  also have "\<dots> < 1"
    by (simp add: u_def)
  finally have "E * (2 * u + u * u) * of_int b < 1"
    by (simp add: mult.commute mult.left_commute)
  then have eps: "E * (2 * u + u * u) < 1 / of_int b"
    using bpos by (simp add: field_simps)
  have "E * (1 + u) * (1 + u) = E + E * (2 * u + u * u)"
    by (simp add: algebra_simps)
  with up eps have hi: "F < E + 1 / of_int b"
    by linarith
  have "0 \<le> E * (u * u)"
    using E0 by (simp add: u_def)
  moreover have "E * (1 - u) * (1 - u) = E - E * (2 * u + u * u) + 2 * (E * (u * u))"
    by (simp add: algebra_simps)
  ultimately have "E - E * (2 * u + u * u) \<le> E * (1 - u) * (1 - u)"
    by linarith
  with lo eps have "E - 1 / of_int b < F"
    by linarith
  with hi s show ?thesis
    unfolding E_def by blast
qed

lemma floor_product_floor:
  assumes y: "0 \<le> y" and a: "0 < a" "a < 2 ^ 53" and b: "0 < b" "b < 2 ^ 53"
    and ya: "y * a < 2 ^ 51"
  shows "(y * a) div b - 1 \<le> floor_product y a b" and "floor_product y a b \<le> (y * a) div b"
    and "\<not> b dvd y * a \<Longrightarrow> floor_product y a b = (y * a) div b"
proof -
  define k where "k = (y * a) div b"
  define r where "r = (y * a) mod b"
  from floor_product_near [OF assms] obtain F :: rat where
    s: "floor_product y a b = \<lfloor>F\<rfloor>"
    and lo: "of_int (y * a) / of_int b - 1 / of_int b < F"
    and hi: "F < of_int (y * a) / of_int b + 1 / of_int b"
    by blast
  have bpos: "(0::rat) < of_int b"
    using b by simp
  have r0: "0 \<le> r" and rb: "r < b"
    using b by (simp_all add: r_def)
  have "y * a = k * b + r"
    by (simp add: k_def r_def)
  then have "(of_int (y * a) :: rat) = of_int k * of_int b + of_int r"
    by (metis of_int_add of_int_mult)
  then have E: "(of_int (y * a) :: rat) / of_int b = of_int k + of_int r / of_int b"
    using bpos by (simp add: field_simps)
  have "r + 1 \<le> b"
    using rb by simp
  then have "(of_int (r + 1) :: rat) \<le> of_int b"
    by (simp only: of_int_le_iff)
  then have "(of_int r + 1 :: rat) / of_int b \<le> 1"
    using bpos by simp
  then have "(of_int r :: rat) / of_int b + 1 / of_int b \<le> 1"
    by (simp add: add_divide_distrib)
  with hi E have "F < of_int (k + 1)"
    by simp
  then have "\<lfloor>F\<rfloor> < k + 1"
    by (simp only: floor_less_iff)
  then show "floor_product y a b \<le> (y * a) div b"
    by (simp add: s k_def)
  have rq: "(0::rat) \<le> of_int r / of_int b"
    using r0 bpos by simp
  have "(1::rat) / of_int b \<le> 1"
    using b by simp
  with lo E rq have "of_int (k - 1) \<le> F"
    by simp
  then have "k - 1 \<le> \<lfloor>F\<rfloor>"
    by (simp only: le_floor_iff)
  then show "(y * a) div b - 1 \<le> floor_product y a b"
    by (simp add: s k_def)
  assume "\<not> b dvd y * a"
  then have "r \<noteq> 0"
    by (simp add: r_def dvd_eq_mod_eq_0)
  with r0 have "1 \<le> r"
    by simp
  then have "(of_int 1 :: rat) \<le> of_int r"
    by (simp only: of_int_le_iff)
  then have "(1::rat) / of_int b \<le> of_int r / of_int b"
    using bpos by (simp add: divide_right_mono)
  with lo E have "of_int k \<le> F"
    by simp
  then have "k \<le> \<lfloor>F\<rfloor>"
    by (simp only: le_floor_iff)
  with \<open>\<lfloor>F\<rfloor> < k + 1\<close> show "floor_product y a b = (y * a) div b"
    by (simp add: s k_def)
qed

lemma scale_in_range:
  "- (2 ^ 63) \<le> floor_product y a b \<Longrightarrow> floor_product y a b < 2 ^ 63 \<Longrightarrow>
     scale y a b = floor_product y a b"
  by (simp add: scale_def int_of_float64_def)

lemma scale_le:
  assumes y: "0 \<le> y" "y < 2 ^ 53" and a: "0 < a" and ab: "a < b" and b: "b < 2 ^ 53"
  shows "0 \<le> scale y a b" and "scale y a b \<le> y"
proof -
  have l: "0 \<le> floor_product y a b" and u: "floor_product y a b \<le> y"
    using assms by (rule floor_product_le)+
  have "(2::int) ^ 53 \<le> 2 ^ 63"
    by simp
  with u y have "floor_product y a b < 2 ^ 63"
    by linarith
  with l have "scale y a b = floor_product y a b"
    by (intro scale_in_range) simp_all
  with l u show "0 \<le> scale y a b" and "scale y a b \<le> y"
    by simp_all
qed

lemma scale_eq_floor_product:
  assumes y: "0 \<le> y" and a: "0 < a" "a < 2 ^ 53" and b: "0 < b" "b < 2 ^ 53"
    and ya: "y * a < 2 ^ 51"
  shows "scale y a b = floor_product y a b"
proof -
  have l: "(y * a) div b - 1 \<le> floor_product y a b"
    and u: "floor_product y a b \<le> (y * a) div b"
    using assms by (rule floor_product_floor)+
  have n: "0 \<le> y * a"
    using y a by simp
  then have "0 \<le> (y * a) div b"
    using b by (simp add: pos_imp_zdiv_nonneg_iff)
  with l have lo: "- (2 ^ 63) \<le> floor_product y a b"
    by simp
  have "(y * a) div b \<le> y * a"
    using zdiv_mono2 [of "y * a" 1 b] n b by simp
  moreover have "(2::int) ^ 51 \<le> 2 ^ 63"
    by simp
  ultimately have "floor_product y a b < 2 ^ 63"
    using u ya by linarith
  with lo show ?thesis
    by (rule scale_in_range)
qed

lemma scale_floor:
  assumes y: "0 \<le> y" and a: "0 < a" "a < 2 ^ 53" and b: "0 < b" "b < 2 ^ 53"
    and ya: "y * a < 2 ^ 51"
  shows "(y * a) div b - 1 \<le> scale y a b" and "scale y a b \<le> (y * a) div b"
    and "\<not> b dvd y * a \<Longrightarrow> scale y a b = (y * a) div b"
  using floor_product_floor [OF assms] by (simp_all add: scale_eq_floor_product [OF assms])

subsection \<open>validateMimeType\<close>

lemma allowedMimeTypes_Some:
  "allowedMimeTypes m = Some v \<longleftrightarrow>
     v \<and> m \<in> {''image/jpeg'', ''image/jpg'', ''image/png'', ''image/gif''}"
  by (auto simp: allowedMimeTypes_def)

lemma allowedMimeTypes_lookup:
  "(case allowedMimeTypes m of None \<Rightarrow> False | Some match \<Rightarrow> match) \<longleftrightarrow>
     m \<in> {''image/jpeg'', ''image/jpg'', ''image/png'', ''image/gif''}"
  by (cases "allowedMimeTypes m") (auto simp: allowedMimeTypes_def split: if_splits)

text \<open>
  C5. \<^verbatim>\<open>validateMimeType\<close> lowercases the content type with \<^verbatim>\<open>strings.ToLower\<close> and answers
  \<open>True\<close> exactly when the lowercased string is one of \<^verbatim>\<open>image/jpeg\<close>, \<^verbatim>\<open>image/jpg\<close>,
  \<^verbatim>\<open>image/png\<close>, \<^verbatim>\<open>image/gif\<close>; it is a total function into \<open>bool\<close>, so every other
  string gives \<open>False\<close> and none gives an error. For a content type of ASCII bytes the
  lowercased string is the byte-wise ASCII lowering, so exactly the four types in any
  letter case are accepted. A content type with a byte above 127 is accepted exactly when
  its code points, each mapped by \<^verbatim>\<open>unicode.ToLower\<close>, spell one of the four: U+0130
  followed by \<^verbatim>\<open>MAGE/PNG\<close> is accepted although it is none of the four types in any case of
  their letters.
\<close>

theorem validateMimeType_exact:
  "validateMimeType ul blob =
     (ToLower ul (ContentType blob) \<in>
        {''image/jpeg'', ''image/jpg'', ''image/png'', ''image/gif''})
   \<and> (list_all is_ascii (ContentType blob) \<longrightarrow>
        validateMimeType ul blob =
          (map ascii_lower (ContentType blob) \<in>
             {''image/jpeg'', ''image/jpg'', ''image/png'', ''image/gif''}))
   \<and> (\<not> list_all is_ascii (ContentType blob) \<longrightarrow>
        validateMimeType ul blob =
          (map char_of (concat (map (\<lambda>c. EncodeRune (ul c))
                                  (runes (map of_char (ContentType blob))))) \<in>
             {''image/jpeg'', ''image/jpg'', ''image/png'', ''image/gif''}))"
  by (simp add: validateMimeType_def allowedMimeTypes_lookup ToLower_def Let_def)

theorem validateMimeType_exact_counterexample:
  "validateMimeType simple_case_rows
     (mem_blob ''k'' (map char_of [196 :: int, 176] @ ''MAGE/PNG''))
   \<and> map ascii_lower (map char_of [196 :: int, 176] @ ''MAGE/PNG'') \<notin>
       {''image/jpeg'', ''image/jpg'', ''image/png'', ''image/gif''}"
  by code_simp

theorem validateMimeType_exact_witness:
  "list_all is_ascii ''IMAGE/Jpeg''
   \<and> validateMimeType id \<lparr>BlobKey = ''k1'', ContentType = ''IMAGE/Jpeg'', CreationTime = 0,
        Filename = ''a.jpg'', ByteSize = 10\<rparr>
   \<and> list_all is_ascii ''application/pdf''
   \<and> \<not> validateMimeType id \<lparr>BlobKey = ''k2'', ContentType = ''application/pdf'',
        CreationTime = 0, Filename = ''a.pdf'', ByteSize = 10\<rparr>
   \<and> \<not> list_all is_ascii (map char_of [196 :: int, 176] @ ''MAGE/PNG'')
   \<and> validateMimeType simple_case_rows \<lparr>BlobKey = ''k3'',
        ContentType = map char_of [196 :: int, 176] @ ''MAGE/PNG'',
        CreationTime = 0, Filename = ''a.png'', ByteSize = 10\<rparr>"
proof -
  have a1: "list_all is_ascii ''IMAGE/Jpeg''"
    by code_simp
  have a2: "map ascii_lower ''IMAGE/Jpeg'' = ''image/jpeg''"
    by code_simp
  have b1: "list_all is_ascii ''application/pdf''"
    by code_simp
  have b2: "map ascii_lower ''application/pdf'' = ''application/pdf''"
    by code_simp
  have k1: "validateMimeType id \<lparr>BlobKey = ''k1'', ContentType = ''IMAGE/Jpeg'',
          CreationTime = 0, Filename = ''a.jpg'', ByteSize = 10\<rparr>"
    using validateMimeType_exact [of id "\<lparr>BlobKey = ''k1'', ContentType = ''IMAGE/Jpeg'',
          CreationTime = 0, Filename = ''a.jpg'', ByteSize = 10\<rparr>", THEN conjunct2]
    unfolding blobInfo.simps a2 using a1 by simp
  have k2: "\<not> validateMimeType id \<lparr>BlobKey = ''k2'', ContentType = ''application/pdf'',
          CreationTime = 0, Filename = ''a.pdf'', ByteSize = 10\<rparr>"
    using validateMimeType_exact [of id "\<lparr>BlobKey = ''k2'', ContentType = ''application/pdf'',
          CreationTime = 0, Filename = ''a.pdf'', ByteSize = 10\<rparr>", THEN conjunct2]
    unfolding blobInfo.simps b2 using b1 by simp
  have c1: "\<not> list_all is_ascii (map char_of [196 :: int, 176] @ ''MAGE/PNG'')"
    by code_simp
  have c2: "map char_of (concat (map (\<lambda>c. EncodeRune (simple_case_rows c))
              (runes (map of_char (map char_of [196 :: int, 176] @ ''MAGE/PNG'')))))
            = ''image/png''"
    by code_simp
  have k3: "validateMimeType simple_case_rows \<lparr>BlobKey = ''k3'',
        ContentType = map char_of [196 :: int, 176] @ ''MAGE/PNG'',
        CreationTime = 0, Filename = ''a.png'', ByteSize = 10\<rparr>"
    using validateMimeType_exact [of simple_case_rows "\<lparr>BlobKey = ''k3'',
        ContentType = map char_of [196 :: int, 176] @ ''MAGE/PNG'',
        CreationTime = 0, Filename = ''a.png'', ByteSize = 10\<rparr>",
        THEN conjunct2, THEN conjunct2]
    unfolding blobInfo.simps c2 using c1 by simp
  show ?thesis
    using a1 b1 k1 k2 c1 k3 by blast
qed

subsection \<open>The calls of handleBlob\<close>

lemma do_call_calls:
  "do_call f ev s = (r, s') \<Longrightarrow>
     calls s' = calls s @ [ev (succeeded r)] \<and> heap s' = heap s \<and> fst (f (world s)) = r"
  by (auto simp: do_call_def split: prod.splits)

lemma do_call_snd:
  "calls (snd (do_call f ev s)) = calls s @ [ev (succeeded (fst (do_call f ev s)))]"
  "heap (snd (do_call f ev s)) = heap s"
  by (auto simp: do_call_def split: prod.splits)

lemma handleBlob_trace:
  assumes "handleBlob env options blob s = (b, s')"
  shows "heap s' = heap s \<and> (\<exists>rs. (rs = [] \<or> (\<exists>x y. rs = [Call_Resize x y])) \<and>
     ((b = blob \<and> s' = s \<and> \<not> validateMimeType (unicode_ToLower env) blob)
    \<or> validateMimeType (unicode_ToLower env) blob \<and>
     ((b = blob \<and> calls s' = calls s @ [Call_Decode (BlobKey blob) False])
    \<or> (b = blob \<and> calls s' = calls s @ Call_Decode (BlobKey blob) True # rs @
            [Call_Create ''image/jpeg'' False])
    \<or> (\<exists>c. b = blob \<and> calls s' = calls s @ Call_Decode (BlobKey blob) True # rs @
            [Call_Create ''image/jpeg'' True, Call_Encode (Quality options) False, Call_Close c])
    \<or> (b = blob \<and> calls s' = calls s @ Call_Decode (BlobKey blob) True # rs @
            [Call_Create ''image/jpeg'' True, Call_Encode (Quality options) True,
             Call_Close False])
    \<or> (b = blob \<and> calls s' = calls s @ Call_Decode (BlobKey blob) True # rs @
            [Call_Create ''image/jpeg'' True, Call_Encode (Quality options) True,
             Call_Close True, Call_Key False])
    \<or> (\<exists>nk. b = blob \<and> calls s' = calls s @ Call_Decode (BlobKey blob) True # rs @
            [Call_Create ''image/jpeg'' True, Call_Encode (Quality options) True,
             Call_Close True, Call_Key True, Call_Stat nk False])
    \<or> (\<exists>nk d w. fst (blobstore_Stat env (Context options) nk w) = Inr b \<and>
          calls s' = calls s @ Call_Decode (BlobKey blob) True # rs @
            [Call_Create ''image/jpeg'' True, Call_Encode (Quality options) True,
             Call_Close True, Call_Key True, Call_Stat nk True,
             Call_Delete (BlobKey blob) d]))))"
  using assms
  unfolding handleBlob_def Let_def deleteOldBlob_def
  apply (simp split: if_splits prod.splits sum.splits option.splits)
  apply (auto dest!: do_call_calls simp: succeeded_def do_call_snd)
  done

lemma do_call_eq:
  "f (world s) = (r, w') \<Longrightarrow>
     do_call f ev s = (r, s\<lparr>world := w', calls := calls s @ [ev (succeeded r)]\<rparr>)"
  by (simp add: do_call_def)

lemma resize_step:
  "(case resize_target (Size options) (fst (Bounds_Max env img)) (snd (Bounds_Max env img)) of
      None \<Rightarrow> (img, s1)
    | Some (size_x, size_y) \<Rightarrow>
        (resize_Resize env img size_x size_y,
         s1\<lparr>calls := calls s1 @ [Call_Resize size_x size_y]\<rparr>))
   = (encoded_image env options img, s1\<lparr>calls := calls s1 @ resize_calls env options img\<rparr>)"
  by (simp add: encoded_image_def resize_calls_def split: option.splits)

lemma handleBlob_success:
  assumes v: "validateMimeType (unicode_ToLower env) blob"
    and d: "image_Decode env (Context options) (BlobKey blob) (world s) = (Inr img, w1)"
    and c: "blobstore_Create env (Context options) ''image/jpeg'' w1 = (Inr writer, w2)"
    and e: "jpeg_Encode env writer (encoded_image env options img) (Quality options) w2
              = (Inr (), w3)"
    and l: "Writer_Close env writer w3 = (Inr (), w4)"
    and k: "Writer_Key env writer w4 = (Inr newKey, w5)"
    and t: "blobstore_Stat env (Context options) newKey w5 = (Inr newBlobInfo, w6)"
  shows "handleBlob env options blob s =
     (newBlobInfo,
      s\<lparr>world := snd (blobstore_Delete env (Context options) (BlobKey blob) w6),
        calls := calls s @ Call_Decode (BlobKey blob) True # resize_calls env options img @
          [Call_Create ''image/jpeg'' True, Call_Encode (Quality options) True,
           Call_Close True, Call_Key True, Call_Stat newKey True,
           Call_Delete (BlobKey blob)
             (succeeded (fst (blobstore_Delete env (Context options) (BlobKey blob) w6)))]\<rparr>)"
  unfolding handleBlob_def Let_def deleteOldBlob_def resize_step
  by (simp add: v do_call_def d c e l k t succeeded_def split_beta)


lemma handleBlob_unsupported:
  "\<not> validateMimeType (unicode_ToLower env) blob \<Longrightarrow> handleBlob env options blob s = (blob, s)"
  by (simp add: handleBlob_def)

lemma handleBlob_decode_fails:
  assumes v: "validateMimeType (unicode_ToLower env) blob"
    and d: "image_Decode env (Context options) (BlobKey blob) (world s) = (Inl err, w1)"
  shows "handleBlob env options blob s =
     (blob, s\<lparr>world := w1, calls := calls s @ [Call_Decode (BlobKey blob) False]\<rparr>)"
  unfolding handleBlob_def Let_def
  by (simp add: v do_call_def d succeeded_def)

lemma handleBlob_create_fails:
  assumes v: "validateMimeType (unicode_ToLower env) blob"
    and d: "image_Decode env (Context options) (BlobKey blob) (world s) = (Inr img, w1)"
    and c: "blobstore_Create env (Context options) ''image/jpeg'' w1 = (Inl err, w2)"
  shows "handleBlob env options blob s =
     (blob, s\<lparr>world := w2,
        calls := calls s @ Call_Decode (BlobKey blob) True # resize_calls env options img @
          [Call_Create ''image/jpeg'' False]\<rparr>)"
  unfolding handleBlob_def Let_def resize_step
  by (simp add: v do_call_def d c succeeded_def split_beta)

lemma handleBlob_encode_fails:
  assumes v: "validateMimeType (unicode_ToLower env) blob"
    and d: "image_Decode env (Context options) (BlobKey blob) (world s) = (Inr img, w1)"
    and c: "blobstore_Create env (Context options) ''image/jpeg'' w1 = (Inr writer, w2)"
    and e: "jpeg_Encode env writer (encoded_image env options img) (Quality options) w2
              = (Inl err, w3)"
  shows "handleBlob env options blob s =
     (blob, s\<lparr>world := snd (Writer_Close env writer w3),
        calls := calls s @ Call_Decode (BlobKey blob) True # resize_calls env options img @
          [Call_Create ''image/jpeg'' True, Call_Encode (Quality options) False,
           Call_Close (succeeded (fst (Writer_Close env writer w3)))]\<rparr>)"
  unfolding handleBlob_def Let_def resize_step
  by (simp add: v do_call_def d c e succeeded_def split_beta)

lemma handleBlob_close_fails:
  assumes v: "validateMimeType (unicode_ToLower env) blob"
    and d: "image_Decode env (Context options) (BlobKey blob) (world s) = (Inr img, w1)"
    and c: "blobstore_Create env (Context options) ''image/jpeg'' w1 = (Inr writer, w2)"
    and e: "jpeg_Encode env writer (encoded_image env options img) (Quality options) w2
              = (Inr (), w3)"
    and l: "Writer_Close env writer w3 = (Inl err, w4)"
  shows "handleBlob env options blob s =
     (blob, s\<lparr>world := w4,
        calls := calls s @ Call_Decode (BlobKey blob) True # resize_calls env options img @
          [Call_Create ''image/jpeg'' True, Call_Encode (Quality options) True,
           Call_Close False]\<rparr>)"
  unfolding handleBlob_def Let_def resize_step
  by (simp add: v do_call_def d c e l succeeded_def split_beta)

lemma handleBlob_key_fails:
  assumes v: "validateMimeType (unicode_ToLower env) blob"
    and d: "image_Decode env (Context options) (BlobKey blob) (world s) = (Inr img, w1)"
    and c: "blobstore_Create env (Context options) ''image/jpeg'' w1 = (Inr writer, w2)"
    and e: "jpeg_Encode env writer (encoded_image env options img) (Quality options) w2
              = (Inr (), w3)"
    and l: "Writer_Close env writer w3 = (Inr (), w4)"
    and k: "Writer_Key env writer w4 = (Inl err, w5)"
  shows "handleBlob env options blob s =
     (blob, s\<lparr>world := w5,
        calls := calls s @ Call_Decode (BlobKey blob) True # resize_calls env options img @
          [Call_Create ''image/jpeg'' True, Call_Encode (Quality options) True,
           Call_Close True, Call_Key False]\<rparr>)"
  unfolding handleBlob_def Let_def resize_step
  by (simp add: v do_call_def d c e l k succeeded_def split_beta)

lemma handleBlob_stat_fails:
  assumes v: "validateMimeType (unicode_ToLower env) blob"
    and d: "image_Decode env (Context options) (BlobKey blob) (world s) = (Inr img, w1)"
    and c: "blobstore_Create env (Context options) ''image/jpeg'' w1 = (Inr writer, w2)"
    and e: "jpeg_Encode env writer (encoded_image env options img) (Quality options) w2
              = (Inr (), w3)"
    and l: "Writer_Close env writer w3 = (Inr (), w4)"
    and k: "Writer_Key env writer w4 = (Inr newKey, w5)"
    and t: "blobstore_Stat env (Context options) newKey w5 = (Inl err, w6)"
  shows "handleBlob env options blob s =
     (blob, s\<lparr>world := w6,
        calls := calls s @ Call_Decode (BlobKey blob) True # resize_calls env options img @
          [Call_Create ''image/jpeg'' True, Call_Encode (Quality options) True,
           Call_Close True, Call_Key True, Call_Stat newKey False]\<rparr>)"
  unfolding handleBlob_def Let_def resize_step
  by (simp add: v do_call_def d c e l k t succeeded_def split_beta)

lemma is_Delete_simps:
  "\<not> is_Delete (Call_Decode k ok)" "\<not> is_Delete (Call_Resize x y)"
  "\<not> is_Delete (Call_Create m ok)" "\<not> is_Delete (Call_Encode q ok)"
  "\<not> is_Delete (Call_Close ok)" "\<not> is_Delete (Call_Key ok)"
  "\<not> is_Delete (Call_Stat k ok)" "is_Delete (Call_Delete k ok)"
  by (simp_all add: is_Delete_def)

lemma resize_calls_no_Delete: "\<not> list_ex is_Delete (resize_calls env options img)"
  by (simp add: resize_calls_def is_Delete_def split: option.splits)

lemma handleBlob_replaced:
  assumes del: "list_ex is_Delete (new_calls s (snd (handleBlob env options blob s)))"
  shows "\<exists>img w1 writer w2 w3 w4 newKey w5 newBlobInfo w6.
      validateMimeType (unicode_ToLower env) blob \<and>
      image_Decode env (Context options) (BlobKey blob) (world s) = (Inr img, w1) \<and>
      blobstore_Create env (Context options) ''image/jpeg'' w1 = (Inr writer, w2) \<and>
      jpeg_Encode env writer (encoded_image env options img) (Quality options) w2
        = (Inr (), w3) \<and>
      Writer_Close env writer w3 = (Inr (), w4) \<and>
      Writer_Key env writer w4 = (Inr newKey, w5) \<and>
      blobstore_Stat env (Context options) newKey w5 = (Inr newBlobInfo, w6)"
proof -
  have v: "validateMimeType (unicode_ToLower env) blob"
  proof (rule ccontr)
    assume "\<not> ?thesis"
    from handleBlob_unsupported [OF this] del show False
      by (simp add: new_calls_def)
  qed
  obtain rd w1 where d: "image_Decode env (Context options) (BlobKey blob) (world s) = (rd, w1)"
    by fastforce
  obtain img where rd: "rd = Inr img"
  proof (cases rd)
    case (Inl err)
    from handleBlob_decode_fails [OF v d [unfolded Inl]] del show ?thesis
      by (simp add: new_calls_def is_Delete_simps)
  qed
  note d = d [unfolded rd]
  obtain rc w2 where c: "blobstore_Create env (Context options) ''image/jpeg'' w1 = (rc, w2)"
    by fastforce
  obtain writer where rc: "rc = Inr writer"
  proof (cases rc)
    case (Inl err)
    from handleBlob_create_fails [OF v d c [unfolded Inl]] del show ?thesis
      by (simp add: new_calls_def is_Delete_simps resize_calls_no_Delete)
  qed
  note c = c [unfolded rc]
  obtain re w3 where e: "jpeg_Encode env writer (encoded_image env options img)
      (Quality options) w2 = (re, w3)"
    by fastforce
  have re: "re = Inr ()"
  proof (cases re)
    case (Inl err)
    from handleBlob_encode_fails [OF v d c e [unfolded Inl]] del show ?thesis
      by (simp add: new_calls_def is_Delete_simps resize_calls_no_Delete)
  qed simp
  note e = e [unfolded re]
  obtain rl w4 where l: "Writer_Close env writer w3 = (rl, w4)"
    by fastforce
  have rl: "rl = Inr ()"
  proof (cases rl)
    case (Inl err)
    from handleBlob_close_fails [OF v d c e l [unfolded Inl]] del show ?thesis
      by (simp add: new_calls_def is_Delete_simps resize_calls_no_Delete)
  qed simp
  note l = l [unfolded rl]
  obtain rk w5 where k: "Writer_Key env writer w4 = (rk, w5)"
    by fastforce
  obtain newKey where rk: "rk = Inr newKey"
  proof (cases rk)
    case (Inl err)
    from handleBlob_key_fails [OF v d c e l k [unfolded Inl]] del show ?thesis
      by (simp add: new_calls_def is_Delete_simps resize_calls_no_Delete)
  qed
  note k = k [unfolded rk]
  obtain rt w6 where t: "blobstore_Stat env (Context options) newKey w5 = (rt, w6)"
    by fastforce
  obtain newBlobInfo where rt: "rt = Inr newBlobInfo"
  proof (cases rt)
    case (Inl err)
    from handleBlob_stat_fails [OF v d c e l k t [unfolded Inl]] del show ?thesis
      by (simp add: new_calls_def is_Delete_simps resize_calls_no_Delete)
  qed
  note t = t [unfolded rt]
  from v d c e l k t show ?thesis
    by blast
qed

lemma call_ok_simps:
  "call_ok (Call_Decode k ok) = ok" "call_ok (Call_Resize x y)"
  "call_ok (Call_Create m ok) = ok" "call_ok (Call_Encode q ok) = ok"
  "call_ok (Call_Close ok) = ok" "call_ok (Call_Key ok) = ok"
  "call_ok (Call_Stat k ok) = ok" "call_ok (Call_Delete k ok) = ok"
  by (simp_all add: call_ok_def)

lemma resize_calls_ok:
  "\<not> list_ex (\<lambda>c. \<not> is_Delete c \<and> \<not> call_ok c) (resize_calls env options img)"
  by (simp add: resize_calls_def call_ok_simps split: option.splits)

lemma resize_calls_set:
  "Call_Create m ok \<notin> set (resize_calls env options img)"
  "Call_Encode q ok \<notin> set (resize_calls env options img)"
  by (simp_all add: resize_calls_def split: option.splits)

lemma handleBlob_calls_append:
  "calls (snd (handleBlob env options blob s)) =
     calls s @ new_calls s (snd (handleBlob env options blob s))"
proof -
  obtain b s' where h: "handleBlob env options blob s = (b, s')"
    by fastforce
  from handleBlob_trace [OF h] show ?thesis
    unfolding h snd_conv new_calls_def
    by (elim conjE exE disjE) simp_all
qed

lemma replaced_has_Delete:
  assumes "fst (handleBlob env options blob s) \<noteq> blob"
  shows "list_ex is_Delete (new_calls s (snd (handleBlob env options blob s)))"
proof -
  obtain b s' where h: "handleBlob env options blob s = (b, s')"
    by fastforce
  from handleBlob_trace [OF h] assms show ?thesis
    unfolding h snd_conv fst_conv new_calls_def
    by (elim conjE exE disjE) (simp_all add: is_Delete_simps)
qed

lemma pair_fst: "fst p = a \<Longrightarrow> p = (a, snd p)"
  by (cases p) simp

text \<open>
  C3. When one run of \<^verbatim>\<open>handleBlob\<close> calls the delete, the run is this and no other: the
  image was decoded, a writer was created, the image was encoded into that writer, the
  writer was closed, it reported its key, and \<^verbatim>\<open>blobstore.Stat\<close> of that key succeeded,
  each call made in the state the one before left and each without error; the delete is
  the last call, for the key of the old blob, made in the state that \<^verbatim>\<open>Stat\<close> left; and
  the blob returned is the one \<^verbatim>\<open>Stat\<close> reported. When any call other than the delete
  fails (decode, create, encode, close, key, stat), no delete is called.
\<close>

theorem delete_only_after_stat:
  "calls (snd (handleBlob env options blob s)) =
     calls s @ new_calls s (snd (handleBlob env options blob s))
   \<and> (list_ex is_Delete (new_calls s (snd (handleBlob env options blob s))) \<longrightarrow>
        (\<exists>img w1 writer w2 w3 w4 newKey w5 newBlobInfo w6.
           image_Decode env (Context options) (BlobKey blob) (world s) = (Inr img, w1) \<and>
           blobstore_Create env (Context options) ''image/jpeg'' w1 = (Inr writer, w2) \<and>
           jpeg_Encode env writer (encoded_image env options img) (Quality options) w2
             = (Inr (), w3) \<and>
           Writer_Close env writer w3 = (Inr (), w4) \<and>
           Writer_Key env writer w4 = (Inr newKey, w5) \<and>
           blobstore_Stat env (Context options) newKey w5 = (Inr newBlobInfo, w6) \<and>
           new_calls s (snd (handleBlob env options blob s)) =
             Call_Decode (BlobKey blob) True # resize_calls env options img @
               [Call_Create ''image/jpeg'' True, Call_Encode (Quality options) True,
                Call_Close True, Call_Key True, Call_Stat newKey True,
                Call_Delete (BlobKey blob)
                  (succeeded (fst (blobstore_Delete env (Context options) (BlobKey blob) w6)))] \<and>
           world (snd (handleBlob env options blob s)) =
             snd (blobstore_Delete env (Context options) (BlobKey blob) w6) \<and>
           fst (handleBlob env options blob s) = newBlobInfo))
   \<and> (list_ex (\<lambda>c. \<not> is_Delete c \<and> \<not> call_ok c)
          (new_calls s (snd (handleBlob env options blob s))) \<longrightarrow>
        \<not> list_ex is_Delete (new_calls s (snd (handleBlob env options blob s))))"
proof (intro conjI impI)
  show "calls (snd (handleBlob env options blob s)) =
     calls s @ new_calls s (snd (handleBlob env options blob s))"
    by (rule handleBlob_calls_append)
next
  assume "list_ex is_Delete (new_calls s (snd (handleBlob env options blob s)))"
  from handleBlob_replaced [OF this] obtain img w1 writer w2 w3 w4 newKey w5 newBlobInfo w6
    where v: "validateMimeType (unicode_ToLower env) blob"
    and d: "image_Decode env (Context options) (BlobKey blob) (world s) = (Inr img, w1)"
    and c: "blobstore_Create env (Context options) ''image/jpeg'' w1 = (Inr writer, w2)"
    and e: "jpeg_Encode env writer (encoded_image env options img) (Quality options) w2
              = (Inr (), w3)"
    and l: "Writer_Close env writer w3 = (Inr (), w4)"
    and k: "Writer_Key env writer w4 = (Inr newKey, w5)"
    and t: "blobstore_Stat env (Context options) newKey w5 = (Inr newBlobInfo, w6)"
    by blast
  from handleBlob_success [OF v d c e l k t]
  have "new_calls s (snd (handleBlob env options blob s)) =
             Call_Decode (BlobKey blob) True # resize_calls env options img @
               [Call_Create ''image/jpeg'' True, Call_Encode (Quality options) True,
                Call_Close True, Call_Key True, Call_Stat newKey True,
                Call_Delete (BlobKey blob)
                  (succeeded (fst (blobstore_Delete env (Context options) (BlobKey blob) w6)))]"
    and "world (snd (handleBlob env options blob s)) =
             snd (blobstore_Delete env (Context options) (BlobKey blob) w6)"
    and "fst (handleBlob env options blob s) = newBlobInfo"
    by (simp_all add: new_calls_def)
  with d c e l k t show "\<exists>img w1 writer w2 w3 w4 newKey w5 newBlobInfo w6.
           image_Decode env (Context options) (BlobKey blob) (world s) = (Inr img, w1) \<and>
           blobstore_Create env (Context options) ''image/jpeg'' w1 = (Inr writer, w2) \<and>
           jpeg_Encode env writer (encoded_image env options img) (Quality options) w2
             = (Inr (), w3) \<and>
           Writer_Close env writer w3 = (Inr (), w4) \<and>
           Writer_Key env writer w4 = (Inr newKey, w5) \<and>
           blobstore_Stat env (Context options) newKey w5 = (Inr newBlobInfo, w6) \<and>
           new_calls s (snd (handleBlob env options blob s)) =
             Call_Decode (BlobKey blob) True # resize_calls env options img @
               [Call_Create ''image/jpeg'' True, Call_Encode (Quality options) True,
                Call_Close True, Call_Key True, Call_Stat newKey True,
                Call_Delete (BlobKey blob)
                  (succeeded (fst (blobstore_Delete env (Context options) (BlobKey blob) w6)))] \<and>
           world (snd (handleBlob env options blob s)) =
             snd (blobstore_Delete env (Context options) (BlobKey blob) w6) \<and>
           fst (handleBlob env options blob s) = newBlobInfo"
    by blast
next
  assume f: "list_ex (\<lambda>c. \<not> is_Delete c \<and> \<not> call_ok c)
          (new_calls s (snd (handleBlob env options blob s)))"
  show "\<not> list_ex is_Delete (new_calls s (snd (handleBlob env options blob s)))"
  proof
    assume "list_ex is_Delete (new_calls s (snd (handleBlob env options blob s)))"
    from handleBlob_replaced [OF this] obtain img w1 writer w2 w3 w4 newKey w5 newBlobInfo w6
      where v: "validateMimeType (unicode_ToLower env) blob"
      and d: "image_Decode env (Context options) (BlobKey blob) (world s) = (Inr img, w1)"
      and c: "blobstore_Create env (Context options) ''image/jpeg'' w1 = (Inr writer, w2)"
      and e: "jpeg_Encode env writer (encoded_image env options img) (Quality options) w2
                = (Inr (), w3)"
      and l: "Writer_Close env writer w3 = (Inr (), w4)"
      and k: "Writer_Key env writer w4 = (Inr newKey, w5)"
      and t: "blobstore_Stat env (Context options) newKey w5 = (Inr newBlobInfo, w6)"
      by blast
    from handleBlob_success [OF v d c e l k t] f show False
      by (simp add: new_calls_def call_ok_simps is_Delete_simps resize_calls_ok)
  qed
qed


theorem delete_only_after_stat_witness:
  "\<not> list_ex is_Delete (new_calls (mem_state [''stat''] ''image/jpeg'' 3000 2000)
       (snd (handleBlob (mem_env [''photo'']) photo_options (mem_blob ''old'' ''image/jpeg'')
          (mem_state [''stat''] ''image/jpeg'' 3000 2000))))
   \<and> mem_objects (world (snd (handleBlob (mem_env [''photo'']) photo_options
          (mem_blob ''old'' ''image/jpeg'') (mem_state [''stat''] ''image/jpeg'' 3000 2000))))
        ''old'' = Some (''image/jpeg'', Pixels 3000 2000)
   \<and> (\<exists>w5 w6. blobstore_Stat (mem_env [''photo'']) (Context photo_options) ''n'' w5 =
          (Inr (fst (handleBlob (mem_env [''photo'']) photo_options
                  (mem_blob ''old'' ''image/jpeg'') (mem_state [] ''image/jpeg'' 3000 2000))),
           w6))"
proof -
  let ?E = "mem_env [''photo'']"
  let ?O = "photo_options"
  let ?B = "mem_blob ''old'' ''image/jpeg''"
  let ?f = "mem_state [''stat''] ''image/jpeg'' 3000 2000"
  let ?s = "mem_state [] ''image/jpeg'' 3000 2000"
  have o: "mem_objects (world (snd (handleBlob ?E ?O ?B ?f))) ''old''
             = Some (''image/jpeg'', Pixels 3000 2000)"
    by code_simp
  have "list_ex (\<lambda>c. \<not> is_Delete c \<and> \<not> call_ok c) (new_calls ?f (snd (handleBlob ?E ?O ?B ?f)))"
    by code_simp
  with delete_only_after_stat [of ?E ?O ?B ?f, THEN conjunct2, THEN conjunct2]
  have 1: "\<not> list_ex is_Delete (new_calls ?f (snd (handleBlob ?E ?O ?B ?f)))"
    by blast
  have "list_ex is_Delete (new_calls ?s (snd (handleBlob ?E ?O ?B ?s)))"
    by code_simp
  with delete_only_after_stat [of ?E ?O ?B ?s, THEN conjunct2, THEN conjunct1]
  obtain img w1 newKey w5 newBlobInfo w6 where
    d: "image_Decode ?E (Context ?O) (BlobKey ?B) (world ?s) = (Inr img, w1)"
    and t: "blobstore_Stat ?E (Context ?O) newKey w5 = (Inr newBlobInfo, w6)"
    and n: "new_calls ?s (snd (handleBlob ?E ?O ?B ?s)) =
             Call_Decode (BlobKey ?B) True # resize_calls ?E ?O img @
               [Call_Create ''image/jpeg'' True, Call_Encode (Quality ?O) True,
                Call_Close True, Call_Key True, Call_Stat newKey True,
                Call_Delete (BlobKey ?B)
                  (succeeded (fst (blobstore_Delete ?E (Context ?O) (BlobKey ?B) w6)))]"
    and r: "fst (handleBlob ?E ?O ?B ?s) = newBlobInfo"
    by blast
  have "image_Decode ?E (Context ?O) (BlobKey ?B) (world ?s) = (Inr (3000, 2000), world ?s)"
    by (simp add: mem_env_def mem_Decode_def mem_fail_def mem_state_def mem_blob_def)
  with d have i: "img = (3000, 2000)"
    by simp
  have rc: "resize_calls ?E ?O (3000, 2000) = [Call_Resize 1600 1066]"
    by code_simp
  have ev: "new_calls ?s (snd (handleBlob ?E ?O ?B ?s)) =
      [Call_Decode ''old'' True, Call_Resize 1600 1066, Call_Create ''image/jpeg'' True,
       Call_Encode 75 True, Call_Close True, Call_Key True, Call_Stat ''n'' True,
       Call_Delete ''old'' True]"
    by code_simp
  from n [unfolded i rc ev] have "newKey = ''n''"
    by simp
  with t r have "blobstore_Stat ?E (Context ?O) ''n'' w5 =
          (Inr (fst (handleBlob ?E ?O ?B ?s)), w6)"
    by simp
  with 1 o show ?thesis
    by blast
qed

text \<open>
  C4. \<^verbatim>\<open>handleBlob\<close> is a total function that returns a blob. For an unsupported content
  type it returns the original blob and leaves the state as it was. When any call other
  than the delete fails, it returns the original blob and has made no delete call. It
  never writes to the slices in memory.
\<close>

theorem failure_returns_original:
  "\<exists>tr. calls (snd (handleBlob env options blob s)) = calls s @ tr \<and>
     heap (snd (handleBlob env options blob s)) = heap s \<and>
     (\<not> validateMimeType (unicode_ToLower env) blob \<longrightarrow>
        handleBlob env options blob s = (blob, s)) \<and>
     (list_ex (\<lambda>c. \<not> is_Delete c \<and> \<not> call_ok c) tr \<longrightarrow>
        fst (handleBlob env options blob s) = blob \<and> \<not> list_ex is_Delete tr)"
proof -
  obtain b s' where h: "handleBlob env options blob s = (b, s')"
    by fastforce
  from handleBlob_trace [OF h] show ?thesis
    unfolding h snd_conv fst_conv
    by (elim conjE exE disjE) (simp_all add: is_Delete_def call_ok_def)
qed

theorem failure_returns_original_witness:
  "fst (handleBlob (mem_env [''photo'']) photo_options
          (mem_blob ''old'' ''image/png'') (mem_state [''encode''] ''image/png'' 3000 2000))
     = mem_blob ''old'' ''image/png''
   \<and> mem_objects (world (snd (handleBlob (mem_env [''photo'']) photo_options
          (mem_blob ''old'' ''image/png'') (mem_state [''encode''] ''image/png'' 3000 2000))))
        ''old'' = Some (''image/png'', Pixels 3000 2000)
   \<and> calls (snd (handleBlob (mem_env [''photo'']) photo_options
          (mem_blob ''old'' ''application/pdf'')
          (mem_state [] ''application/pdf'' 0 0))) = []"
proof -
  let ?s = "mem_state [''encode''] ''image/png'' 3000 2000"
  let ?r = "handleBlob (mem_env [''photo'']) photo_options (mem_blob ''old'' ''image/png'') ?s"
  let ?p = "mem_state [] ''application/pdf'' 0 0"
  have c: "calls (snd ?r) =
      [Call_Decode ''old'' True, Call_Resize 1600 1066, Call_Create ''image/jpeg'' True,
       Call_Encode 75 False, Call_Close True]"
    by code_simp
  have o: "mem_objects (world (snd ?r)) ''old'' = Some (''image/png'', Pixels 3000 2000)"
    by code_simp
  have e: "calls ?s = []"
    by (simp add: mem_state_def)
  from failure_returns_original [of "mem_env [''photo'']" photo_options
      "mem_blob ''old'' ''image/png''" ?s]
  obtain tr where t: "calls (snd ?r) = calls ?s @ tr"
    and i: "list_ex (\<lambda>c. \<not> is_Delete c \<and> \<not> call_ok c) tr \<longrightarrow>
              fst ?r = mem_blob ''old'' ''image/png'' \<and> \<not> list_ex is_Delete tr"
    by blast
  from t e c have tr: "tr = [Call_Decode ''old'' True, Call_Resize 1600 1066,
       Call_Create ''image/jpeg'' True, Call_Encode 75 False, Call_Close True]"
    by simp
  have "list_ex (\<lambda>c. \<not> is_Delete c \<and> \<not> call_ok c) tr"
    unfolding tr by (simp add: is_Delete_def call_ok_def)
  with i have r1: "fst ?r = mem_blob ''old'' ''image/png''"
    by blast
  have v: "\<not> validateMimeType (unicode_ToLower (mem_env [''photo'']))
               (mem_blob ''old'' ''application/pdf'')"
    by code_simp
  from failure_returns_original [of "mem_env [''photo'']" photo_options
      "mem_blob ''old'' ''application/pdf''" ?p] v
  have "handleBlob (mem_env [''photo'']) photo_options (mem_blob ''old'' ''application/pdf'') ?p
          = (mem_blob ''old'' ''application/pdf'', ?p)"
    by blast
  then have r2: "calls (snd (handleBlob (mem_env [''photo'']) photo_options
          (mem_blob ''old'' ''application/pdf'') ?p)) = []"
    by (simp add: mem_state_def)
  from r1 o r2 show ?thesis
    by simp
qed

text \<open>
  C8. Whatever content type the blob has, every writer \<^verbatim>\<open>handleBlob\<close> opens is opened for
  \<^verbatim>\<open>image/jpeg\<close> and every encoding is \<^verbatim>\<open>jpeg.Encode\<close> at \<^verbatim>\<open>options.Quality\<close>. For a supported
  blob whose image decodes, when the writer created for \<^verbatim>\<open>image/jpeg\<close> takes the encoding
  of the image at \<^verbatim>\<open>options.Quality\<close>, closes and reports its key, and \<^verbatim>\<open>blobstore.Stat\<close>
  of that key succeeds, \<^verbatim>\<open>handleBlob\<close> returns the blob that \<^verbatim>\<open>Stat\<close> reported and deletes the
  old one. Conversely, whenever the blob returned is not the original, or the old one is
  deleted, it is the blob \<^verbatim>\<open>Stat\<close> reported for the key of such a writer.
\<close>

theorem replacement_is_jpeg:
  "(\<forall>m ok. Call_Create m ok \<in> set (new_calls s (snd (handleBlob env options blob s))) \<longrightarrow>
        m = ''image/jpeg'')
   \<and> (\<forall>q ok. Call_Encode q ok \<in> set (new_calls s (snd (handleBlob env options blob s))) \<longrightarrow>
        q = Quality options)
   \<and> (validateMimeType (unicode_ToLower env) blob \<and>
      image_Decode env (Context options) (BlobKey blob) (world s) = (Inr img, w1) \<and>
      blobstore_Create env (Context options) ''image/jpeg'' w1 = (Inr writer, w2) \<and>
      jpeg_Encode env writer (encoded_image env options img) (Quality options) w2
        = (Inr (), w3) \<and>
      Writer_Close env writer w3 = (Inr (), w4) \<and>
      Writer_Key env writer w4 = (Inr newKey, w5) \<and>
      blobstore_Stat env (Context options) newKey w5 = (Inr newBlobInfo, w6) \<longrightarrow>
      handleBlob env options blob s =
        (newBlobInfo,
         s\<lparr>world := snd (blobstore_Delete env (Context options) (BlobKey blob) w6),
           calls := calls s @ Call_Decode (BlobKey blob) True # resize_calls env options img @
             [Call_Create ''image/jpeg'' True, Call_Encode (Quality options) True,
              Call_Close True, Call_Key True, Call_Stat newKey True,
              Call_Delete (BlobKey blob)
                (succeeded (fst (blobstore_Delete env (Context options) (BlobKey blob) w6)))]\<rparr>))
   \<and> (fst (handleBlob env options blob s) \<noteq> blob \<or>
      list_ex is_Delete (new_calls s (snd (handleBlob env options blob s))) \<longrightarrow>
      (\<exists>img w1 writer w2 w3 w4 newKey w5 w6.
         validateMimeType (unicode_ToLower env) blob \<and>
         image_Decode env (Context options) (BlobKey blob) (world s) = (Inr img, w1) \<and>
         blobstore_Create env (Context options) ''image/jpeg'' w1 = (Inr writer, w2) \<and>
         jpeg_Encode env writer (encoded_image env options img) (Quality options) w2
           = (Inr (), w3) \<and>
         Writer_Close env writer w3 = (Inr (), w4) \<and>
         Writer_Key env writer w4 = (Inr newKey, w5) \<and>
         blobstore_Stat env (Context options) newKey w5
           = (Inr (fst (handleBlob env options blob s)), w6)))"
proof (intro conjI)
  obtain b s' where h: "handleBlob env options blob s = (b, s')"
    by fastforce
  from handleBlob_trace [OF h]
  show "\<forall>m ok. Call_Create m ok \<in> set (new_calls s (snd (handleBlob env options blob s))) \<longrightarrow>
        m = ''image/jpeg''"
    unfolding h snd_conv new_calls_def
    by (elim conjE exE disjE) auto
  from handleBlob_trace [OF h]
  show "\<forall>q ok. Call_Encode q ok \<in> set (new_calls s (snd (handleBlob env options blob s))) \<longrightarrow>
        q = Quality options"
    unfolding h snd_conv new_calls_def
    by (elim conjE exE disjE) auto
next
  show "validateMimeType (unicode_ToLower env) blob \<and>
      image_Decode env (Context options) (BlobKey blob) (world s) = (Inr img, w1) \<and>
      blobstore_Create env (Context options) ''image/jpeg'' w1 = (Inr writer, w2) \<and>
      jpeg_Encode env writer (encoded_image env options img) (Quality options) w2
        = (Inr (), w3) \<and>
      Writer_Close env writer w3 = (Inr (), w4) \<and>
      Writer_Key env writer w4 = (Inr newKey, w5) \<and>
      blobstore_Stat env (Context options) newKey w5 = (Inr newBlobInfo, w6) \<longrightarrow>
      handleBlob env options blob s =
        (newBlobInfo,
         s\<lparr>world := snd (blobstore_Delete env (Context options) (BlobKey blob) w6),
           calls := calls s @ Call_Decode (BlobKey blob) True # resize_calls env options img @
             [Call_Create ''image/jpeg'' True, Call_Encode (Quality options) True,
              Call_Close True, Call_Key True, Call_Stat newKey True,
              Call_Delete (BlobKey blob)
                (succeeded (fst (blobstore_Delete env (Context options) (BlobKey blob) w6)))]\<rparr>)"
    using handleBlob_success [of env blob options s img w1 writer w2 w3 w4 newKey w5
        newBlobInfo w6]
    by blast
next
  show "fst (handleBlob env options blob s) \<noteq> blob \<or>
      list_ex is_Delete (new_calls s (snd (handleBlob env options blob s))) \<longrightarrow>
      (\<exists>img w1 writer w2 w3 w4 newKey w5 w6.
         validateMimeType (unicode_ToLower env) blob \<and>
         image_Decode env (Context options) (BlobKey blob) (world s) = (Inr img, w1) \<and>
         blobstore_Create env (Context options) ''image/jpeg'' w1 = (Inr writer, w2) \<and>
         jpeg_Encode env writer (encoded_image env options img) (Quality options) w2
           = (Inr (), w3) \<and>
         Writer_Close env writer w3 = (Inr (), w4) \<and>
         Writer_Key env writer w4 = (Inr newKey, w5) \<and>
         blobstore_Stat env (Context options) newKey w5
           = (Inr (fst (handleBlob env options blob s)), w6))"
  proof
    assume "fst (handleBlob env options blob s) \<noteq> blob \<or>
      list_ex is_Delete (new_calls s (snd (handleBlob env options blob s)))"
    then have "list_ex is_Delete (new_calls s (snd (handleBlob env options blob s)))"
      using replaced_has_Delete [of env options blob s] by blast
    from handleBlob_replaced [OF this] obtain img w1 writer w2 w3 w4 newKey w5 newBlobInfo w6
      where v: "validateMimeType (unicode_ToLower env) blob"
      and d: "image_Decode env (Context options) (BlobKey blob) (world s) = (Inr img, w1)"
      and c: "blobstore_Create env (Context options) ''image/jpeg'' w1 = (Inr writer, w2)"
      and e: "jpeg_Encode env writer (encoded_image env options img) (Quality options) w2
                = (Inr (), w3)"
      and l: "Writer_Close env writer w3 = (Inr (), w4)"
      and k: "Writer_Key env writer w4 = (Inr newKey, w5)"
      and t: "blobstore_Stat env (Context options) newKey w5 = (Inr newBlobInfo, w6)"
      by blast
    from handleBlob_success [OF v d c e l k t]
    have "fst (handleBlob env options blob s) = newBlobInfo"
      by simp
    with v d c e l k t show "\<exists>img w1 writer w2 w3 w4 newKey w5 w6.
         validateMimeType (unicode_ToLower env) blob \<and>
         image_Decode env (Context options) (BlobKey blob) (world s) = (Inr img, w1) \<and>
         blobstore_Create env (Context options) ''image/jpeg'' w1 = (Inr writer, w2) \<and>
         jpeg_Encode env writer (encoded_image env options img) (Quality options) w2
           = (Inr (), w3) \<and>
         Writer_Close env writer w3 = (Inr (), w4) \<and>
         Writer_Key env writer w4 = (Inr newKey, w5) \<and>
         blobstore_Stat env (Context options) newKey w5
           = (Inr (fst (handleBlob env options blob s)), w6)"
      by blast
  qed
qed


theorem replacement_is_jpeg_witness:
  "handleBlob (mem_env [''photo'']) photo_options (mem_blob ''old'' ''image/png'')
       (mem_state [] ''image/png'' 3000 2000) \<noteq>
     (mem_blob ''old'' ''image/png'', mem_state [] ''image/png'' 3000 2000)
   \<and> fst (handleBlob (mem_env [''photo'']) photo_options (mem_blob ''old'' ''image/png'')
       (mem_state [] ''image/png'' 3000 2000)) = mem_blob ''n'' ''image/jpeg''
   \<and> calls (snd (handleBlob (mem_env [''photo'']) photo_options (mem_blob ''old'' ''image/png'')
       (mem_state [] ''image/png'' 3000 2000))) =
      [Call_Decode ''old'' True, Call_Resize 1600 1066, Call_Create ''image/jpeg'' True,
       Call_Encode 75 True, Call_Close True, Call_Key True, Call_Stat ''n'' True,
       Call_Delete ''old'' True]"
proof -
  let ?E = "mem_env [''photo'']"
  let ?O = "photo_options"
  let ?B = "mem_blob ''old'' ''image/png''"
  let ?s = "mem_state [] ''image/png'' 3000 2000"
  let ?w2 = "snd (blobstore_Create ?E (Context ?O) ''image/jpeg'' (world ?s))"
  let ?w3 = "snd (jpeg_Encode ?E 0 (encoded_image ?E ?O (3000, 2000)) (Quality ?O) ?w2)"
  let ?w4 = "snd (Writer_Close ?E 0 ?w3)"
  let ?w5 = "snd (Writer_Key ?E 0 ?w4)"
  let ?w6 = "snd (blobstore_Stat ?E (Context ?O) ''n'' ?w5)"
  have v: "validateMimeType (unicode_ToLower ?E) ?B"
    by code_simp
  have d: "image_Decode ?E (Context ?O) (BlobKey ?B) (world ?s) = (Inr (3000, 2000), world ?s)"
    by (simp add: mem_env_def mem_Decode_def mem_fail_def mem_state_def mem_blob_def)
  have "fst (blobstore_Create ?E (Context ?O) ''image/jpeg'' (world ?s)) = Inr 0"
    by code_simp
  then have c: "blobstore_Create ?E (Context ?O) ''image/jpeg'' (world ?s) = (Inr 0, ?w2)"
    by (rule pair_fst)
  have "fst (jpeg_Encode ?E 0 (encoded_image ?E ?O (3000, 2000)) (Quality ?O) ?w2) = Inr ()"
    by code_simp
  then have e: "jpeg_Encode ?E 0 (encoded_image ?E ?O (3000, 2000)) (Quality ?O) ?w2
                  = (Inr (), ?w3)"
    by (rule pair_fst)
  have "fst (Writer_Close ?E 0 ?w3) = Inr ()"
    by code_simp
  then have l: "Writer_Close ?E 0 ?w3 = (Inr (), ?w4)"
    by (rule pair_fst)
  have "fst (Writer_Key ?E 0 ?w4) = Inr ''n''"
    by code_simp
  then have k: "Writer_Key ?E 0 ?w4 = (Inr ''n'', ?w5)"
    by (rule pair_fst)
  have "fst (blobstore_Stat ?E (Context ?O) ''n'' ?w5) = Inr (mem_blob ''n'' ''image/jpeg'')"
    by code_simp
  then have t: "blobstore_Stat ?E (Context ?O) ''n'' ?w5
                  = (Inr (mem_blob ''n'' ''image/jpeg''), ?w6)"
    by (rule pair_fst)
  from replacement_is_jpeg [where env = ?E and options = ?O and blob = ?B and s = ?s
      and img = "(3000, 2000)" and ?w1.0 = "world ?s" and writer = 0 and ?w2.0 = ?w2
      and ?w3.0 = ?w3 and ?w4.0 = ?w4 and newKey = "''n''" and ?w5.0 = ?w5
      and newBlobInfo = "mem_blob ''n'' ''image/jpeg''" and ?w6.0 = ?w6,
      THEN conjunct2, THEN conjunct2, THEN conjunct1] v d c e l k t
  have h: "handleBlob ?E ?O ?B ?s =
        (mem_blob ''n'' ''image/jpeg'',
         ?s\<lparr>world := snd (blobstore_Delete ?E (Context ?O) (BlobKey ?B) ?w6),
           calls := calls ?s @ Call_Decode (BlobKey ?B) True # resize_calls ?E ?O (3000, 2000) @
             [Call_Create ''image/jpeg'' True, Call_Encode (Quality ?O) True,
              Call_Close True, Call_Key True, Call_Stat ''n'' True,
              Call_Delete (BlobKey ?B)
                (succeeded (fst (blobstore_Delete ?E (Context ?O) (BlobKey ?B) ?w6)))]\<rparr>)"
    by blast
  have 1: "fst (handleBlob ?E ?O ?B ?s) = mem_blob ''n'' ''image/jpeg''"
    by (simp add: h)
  have 2: "calls (snd (handleBlob ?E ?O ?B ?s)) =
      [Call_Decode ''old'' True, Call_Resize 1600 1066, Call_Create ''image/jpeg'' True,
       Call_Encode 75 True, Call_Close True, Call_Key True, Call_Stat ''n'' True,
       Call_Delete ''old'' True]"
    by code_simp
  have "mem_blob ''n'' ''image/jpeg'' \<noteq> mem_blob ''old'' ''image/png''"
    by (simp add: mem_blob_def)
  with 1 have 3: "handleBlob ?E ?O ?B ?s \<noteq> (?B, ?s)"
    by (metis fst_conv)
  from 1 2 3 show ?thesis
    by blast
qed


subsection \<open>The batch\<close>




lemma ParseBlobs_range_map:
  "fst (ParseBlobs_range env options ks blobs s) = blobs"
proof (induction ks arbitrary: s)
  case Nil
  then show ?case by simp
next
  case (Cons k ks)
  show ?case
  proof (cases "blobs k")
    case None
    then show ?thesis using Cons.IH by simp
  next
    case (Some sl)
    have "fst (handleBlobSlice env options sl s) = sl"
      by (simp add: handleBlobSlice_def)
    moreover from Some have "blobs(k \<mapsto> sl) = blobs"
      by (simp add: map_upd_triv)
    ultimately show ?thesis
      using Cons.IH Some by (simp add: split_beta)
  qed
qed






lemma ParseBlobs_unfold:
  assumes "blobstore_ParseUpload env (Request options) (world s) (heap s) =
             ((blobs, other, err), w, h)"
  shows "ParseBlobs env options s =
     (if err \<noteq> None then ((blobs, other, err), s\<lparr>world := w, heap := h\<rparr>)
      else ((blobs, other, err),
            snd (ParseBlobs_range env options (mapiter env blobs) blobs
                   (s\<lparr>world := w, heap := h\<rparr>))))"
  using ParseBlobs_range_map [of env options "mapiter env blobs" blobs "s\<lparr>world := w, heap := h\<rparr>"]
  by (simp add: ParseBlobs_def assms split_beta Let_def)

text \<open>
  C2. The upload of one 3000 by 2000 JPEG in field \<^verbatim>\<open>photo\<close>, processed with
  \<^verbatim>\<open>Size = 1600\<close> on the in-memory blobstore: the result has the one field \<^verbatim>\<open>photo\<close> with
  its one entry, which now is the new blob of content type \<^verbatim>\<open>image/jpeg\<close>; the new object
  is 1600 by 1066, the floor of 1066.67, and not 1600 by 1067; the old object is gone.
\<close>

theorem photo_scenario:
  "fst (ParseBlobs (mem_env [''photo'']) photo_options (mem_state [] ''image/jpeg'' 3000 2000))
     = ([''photo'' \<mapsto> \<lparr>slice_base = 0, slice_len = 1\<rparr>], Map.empty, None)
   \<and> heap (snd (ParseBlobs (mem_env [''photo'']) photo_options
              (mem_state [] ''image/jpeg'' 3000 2000))) 0 = mem_blob ''n'' ''image/jpeg''
   \<and> mem_objects (world (snd (ParseBlobs (mem_env [''photo'']) photo_options
              (mem_state [] ''image/jpeg'' 3000 2000)))) ''n''
       = Some (''image/jpeg'', Pixels 1600 1066)
   \<and> mem_objects (world (snd (ParseBlobs (mem_env [''photo'']) photo_options
              (mem_state [] ''image/jpeg'' 3000 2000)))) ''old'' = None
   \<and> resize_target 1600 3000 2000 = Some (1600, 1066)"
proof -
  let ?s = "mem_state [] ''image/jpeg'' 3000 2000"
  let ?r = "ParseBlobs (mem_env [''photo'']) photo_options ?s"
  have p: "blobstore_ParseUpload (mem_env [''photo'']) (Request photo_options) (world ?s) (heap ?s)
           = (([''photo'' \<mapsto> \<lparr>slice_base = 0, slice_len = 1\<rparr>], Map.empty, None), world ?s, heap ?s)"
    by (simp add: mem_env_def mem_state_def)
  have 1: "fst ?r = ([''photo'' \<mapsto> \<lparr>slice_base = 0, slice_len = 1\<rparr>], Map.empty, None)"
    by (simp add: ParseBlobs_unfold [OF p])
  have 2: "heap (snd ?r) 0 = mem_blob ''n'' ''image/jpeg''"
    by code_simp
  have 3: "mem_objects (world (snd ?r)) ''n'' = Some (''image/jpeg'', Pixels 1600 1066)"
    by code_simp
  have 4: "mem_objects (world (snd ?r)) ''old'' = None"
    by code_simp
  have 5: "resize_target 1600 3000 2000 = Some (1600, 1066)"
    by code_simp
  from 1 2 3 4 5 show ?thesis
    by blast
qed


theorem photo_scenario_counterexample:
  "\<not> (mem_objects (world (snd (ParseBlobs (mem_env [''photo'']) photo_options
           (mem_state [] ''image/jpeg'' 3000 2000))))
         (BlobKey (heap (snd (ParseBlobs (mem_env [''photo'']) photo_options
           (mem_state [] ''image/jpeg'' 3000 2000))) 0))
       = Some (''image/jpeg'', Pixels 1600 1067))"
  by code_simp






subsection \<open>The target size\<close>

lemma resize_target_passes:
  "0 < m \<Longrightarrow> m < X \<Longrightarrow>
     resize_target m X Y =
       Some (if m < scale Y m X then (scale m m (scale Y m X), m) else (m, scale Y m X))"
  by (simp add: resize_target_def Let_def)

lemma resize_target_tall:
  "0 < m \<Longrightarrow> X \<le> m \<Longrightarrow> m < Y \<Longrightarrow> resize_target m X Y = Some (scale X m Y, m)"
  by (simp add: resize_target_def Let_def)

lemma resize_target_None:
  "resize_target m X Y = None \<longleftrightarrow> \<not> (0 < m \<and> (m < X \<or> m < Y))"
  by (simp add: resize_target_def Let_def split_beta)


lemma resize_target_within:
  assumes X: "0 \<le> X" "X < 2 ^ 53" and Y: "0 \<le> Y" "Y < 2 ^ 53"
    and r: "resize_target m X Y = Some (x', y')"
  shows "x' \<le> m \<and> y' \<le> m"
proof -
  from r have m: "0 < m" and big: "m < X \<or> m < Y"
    using resize_target_None [of m X Y] by auto
  show ?thesis
  proof (cases "m < X")
    case True
    from True X have m53: "m < 2 ^ 53"
      by simp
    have hY: "scale Y m X \<le> Y"
      using Y m True X(2) by (rule scale_le(2))
    show ?thesis
    proof (cases "m < scale Y m X")
      case h: True
      from hY Y have h53: "scale Y m X < 2 ^ 53"
        by simp
      from m have m0: "0 \<le> m"
        by simp
      have "scale m m (scale Y m X) \<le> m"
        using m0 m53 m h h53 by (rule scale_le(2))
      with r h show ?thesis
        by (auto simp add: resize_target_passes [OF m True])
    next
      case False
      with r show ?thesis
        by (auto simp add: resize_target_passes [OF m True])
    qed
  next
    case False
    with big have t: "m < Y" and l: "X \<le> m"
      by simp_all
    have "scale X m Y \<le> X"
      using X m t Y(2) by (rule scale_le(2))
    with r l show ?thesis
      by (auto simp add: resize_target_tall [OF m l t])
  qed
qed

lemma handleBlob_resize_calls:
  assumes d: "image_Decode env (Context options) (BlobKey blob) (world s) = (Inr img, w')"
    and v: "validateMimeType (unicode_ToLower env) blob"
  shows "filter (\<lambda>c. \<exists>x y. c = Call_Resize x y)
           (new_calls s (snd (handleBlob env options blob s))) =
         (case resize_target (Size options) (fst (Bounds_Max env img)) (snd (Bounds_Max env img)) of
            None \<Rightarrow> [] | Some (x, y) \<Rightarrow> [Call_Resize x y])"
  unfolding handleBlob_def Let_def deleteOldBlob_def new_calls_def
  apply (simp add: v do_call_eq [of "image_Decode env (Context options) (BlobKey blob)" s, OF d] split: prod.splits sum.splits option.splits)
  apply (auto dest!: do_call_calls simp: succeeded_def do_call_snd)
  done


lemma new_calls_append: "calls s' = calls s @ tr \<Longrightarrow> new_calls s s' = tr"
  by (simp add: new_calls_def)

lemma scale_zero:
  assumes y: "0 < y" and a: "0 < a" and yb: "y * (a + 1) \<le> b" and b: "b < 2 ^ 53"
    and ya: "y * a < 2 ^ 51"
  shows "scale y a b = 0" and "a < b"
proof -
  have "y * a < y * (a + 1)"
    using y by (intro mult_strict_left_mono) simp_all
  with yb have lt: "y * a < b"
    by simp
  have "1 * a \<le> y * a"
    using y a by (intro mult_right_mono) simp_all
  with lt show ab: "a < b"
    by simp
  from ab b have a53: "a < 2 ^ 53"
    by simp
  from ab a have b0: "0 < b"
    by simp
  have pos: "0 < y * a"
    using y a by simp
  from pos lt have nd: "\<not> b dvd y * a"
    by (simp add: zdvd_not_zless)
  from y have y0: "0 \<le> y"
    by simp
  have "scale y a b = (y * a) div b"
    using y0 a a53 b0 b ya nd by (rule scale_floor(3))
  also have "\<dots> = 0"
    using pos lt by simp
  finally show "scale y a b = 0" .
qed





text \<open>
  C7. An image whose width and height are within \<^verbatim>\<open>options.Size\<close> is not resized: the block
  computes no target and \<^verbatim>\<open>handleBlob\<close> makes no call to \<^verbatim>\<open>resize.Resize\<close>. Every target the
  block does compute, for an image with dimensions from 0 to below \<open>2 ^ 53\<close>, is itself
  within \<^verbatim>\<open>options.Size\<close>, so a second run on an image of the target size computes no
  target. In every run the writer is opened for \<^verbatim>\<open>image/jpeg\<close> and the encoding is done at
  \<^verbatim>\<open>options.Quality\<close>.
\<close>

theorem rerun_is_stable:
  "(X \<le> Size options \<and> Y \<le> Size options \<longrightarrow> resize_target (Size options) X Y = None)
   \<and> (0 \<le> X \<and> X < 2 ^ 53 \<and> 0 \<le> Y \<and> Y < 2 ^ 53 \<and>
        resize_target (Size options) X Y = Some (x', y') \<longrightarrow>
        x' \<le> Size options \<and> y' \<le> Size options \<and> resize_target (Size options) x' y' = None)
   \<and> (validateMimeType (unicode_ToLower env) blob \<and>
        image_Decode env (Context options) (BlobKey blob) (world s) = (Inr img, w') \<and>
        fst (Bounds_Max env img) \<le> Size options \<and>
        snd (Bounds_Max env img) \<le> Size options \<longrightarrow>
        (\<forall>x y. Call_Resize x y \<notin> set (new_calls s (snd (handleBlob env options blob s)))))
   \<and> (\<forall>m ok. Call_Create m ok \<in> set (new_calls s (snd (handleBlob env options blob s))) \<longrightarrow>
          m = ''image/jpeg'')
   \<and> (\<forall>q ok. Call_Encode q ok \<in> set (new_calls s (snd (handleBlob env options blob s))) \<longrightarrow>
          q = Quality options)"
proof -
  have 1: "X \<le> Size options \<and> Y \<le> Size options \<longrightarrow> resize_target (Size options) X Y = None"
    by (simp add: resize_target_None)
  have 2: "0 \<le> X \<and> X < 2 ^ 53 \<and> 0 \<le> Y \<and> Y < 2 ^ 53 \<and>
        resize_target (Size options) X Y = Some (x', y') \<longrightarrow>
        x' \<le> Size options \<and> y' \<le> Size options \<and> resize_target (Size options) x' y' = None"
  proof
    assume "0 \<le> X \<and> X < 2 ^ 53 \<and> 0 \<le> Y \<and> Y < 2 ^ 53 \<and>
        resize_target (Size options) X Y = Some (x', y')"
    then have "x' \<le> Size options \<and> y' \<le> Size options"
      using resize_target_within [of X Y "Size options" x' y'] by blast
    then show "x' \<le> Size options \<and> y' \<le> Size options \<and>
        resize_target (Size options) x' y' = None"
      by (simp add: resize_target_None)
  qed
  have 3: "validateMimeType (unicode_ToLower env) blob \<and>
        image_Decode env (Context options) (BlobKey blob) (world s) = (Inr img, w') \<and>
        fst (Bounds_Max env img) \<le> Size options \<and>
        snd (Bounds_Max env img) \<le> Size options \<longrightarrow>
        (\<forall>x y. Call_Resize x y \<notin> set (new_calls s (snd (handleBlob env options blob s))))"
  proof
    assume a: "validateMimeType (unicode_ToLower env) blob \<and>
        image_Decode env (Context options) (BlobKey blob) (world s) = (Inr img, w') \<and>
        fst (Bounds_Max env img) \<le> Size options \<and>
        snd (Bounds_Max env img) \<le> Size options"
    then have "resize_target (Size options) (fst (Bounds_Max env img))
                 (snd (Bounds_Max env img)) = None"
      by (simp add: resize_target_None)
    with a have "filter (\<lambda>c. \<exists>x y. c = Call_Resize x y)
           (new_calls s (snd (handleBlob env options blob s))) = []"
      using handleBlob_resize_calls [of env options blob s img w'] by simp
    then show "\<forall>x y. Call_Resize x y \<notin> set (new_calls s (snd (handleBlob env options blob s)))"
      by (auto simp: filter_empty_conv)
  qed
  obtain b s' where h: "handleBlob env options blob s = (b, s')"
    by fastforce
  from handleBlob_trace [OF h]
  have 4: "(\<forall>m ok. Call_Create m ok \<in> set (new_calls s s') \<longrightarrow> m = ''image/jpeg'')
      \<and> (\<forall>q ok. Call_Encode q ok \<in> set (new_calls s s') \<longrightarrow> q = Quality options)"
    by (elim conjE exE disjE) (auto simp add: new_calls_def)
  from 1 2 3 4 show ?thesis
    unfolding h snd_conv by blast
qed


theorem rerun_is_stable_witness:
  "resize_target 1600 3000 2000 = Some (1600, 1066)
   \<and> resize_target 1600 1600 1066 = None
   \<and> (\<forall>x y. Call_Resize x y \<notin> set (new_calls (mem_state [] ''image/jpeg'' 1600 1066)
        (snd (handleBlob (mem_env [''photo'']) photo_options (mem_blob ''old'' ''image/jpeg'')
                (mem_state [] ''image/jpeg'' 1600 1066)))))"
proof -
  let ?s = "mem_state [] ''image/jpeg'' 1600 1066"
  let ?E = "mem_env [''photo'']"
  let ?b = "mem_blob ''old'' ''image/jpeg''"
  have e: "resize_target 1600 3000 2000 = Some (1600, 1066)"
    by code_simp
  have z: "Size photo_options = 1600"
    by (simp add: photo_options_def)
  from rerun_is_stable [where X = 3000 and Y = 2000 and options = photo_options
      and x' = 1600 and y' = 1066, THEN conjunct2, THEN conjunct1] e
  have 1: "resize_target 1600 1600 1066 = None"
    by (simp add: z)
  have v: "validateMimeType (unicode_ToLower ?E) ?b"
    by code_simp
  have d: "image_Decode ?E (Context photo_options) (BlobKey ?b) (world ?s) =
             (Inr (1600, 1066), world ?s)"
    by (simp add: mem_env_def mem_Decode_def mem_fail_def mem_state_def mem_blob_def)
  have r: "fst (Bounds_Max ?E (1600, 1066)) \<le> Size photo_options \<and>
           snd (Bounds_Max ?E (1600, 1066)) \<le> Size photo_options"
    by (simp add: mem_env_def photo_options_def)
  from rerun_is_stable [where options = photo_options and env = ?E and blob = ?b and s = ?s
      and img = "(1600, 1066)" and w' = "world ?s",
      THEN conjunct2, THEN conjunct2, THEN conjunct1] v d r
  have "\<forall>x y. Call_Resize x y \<notin> set (new_calls ?s (snd (handleBlob ?E photo_options ?b ?s)))"
    by blast
  with e 1 show ?thesis
    by blast
qed

text \<open>
  C9. For a positive \<^verbatim>\<open>Size\<close> and an image so wide that
  \<^verbatim>\<open>height * (Size + 1) <= width\<close>, the target is \<^verbatim>\<open>Size\<close> by 0; for an image within
  \<^verbatim>\<open>Size\<close> in width and so tall that \<^verbatim>\<open>width * (Size + 1) <= height\<close>, the target is 0 by
  \<^verbatim>\<open>Size\<close> (the products below \<open>2 ^ 51\<close>, the long side below \<open>2 ^ 53\<close>). Whatever target
  the block computes is passed to \<^verbatim>\<open>resize.Resize\<close> as it is: no lower bound is applied.
\<close>

theorem zero_target_dimension:
  "(0 < m \<and> 0 < Y \<and> Y * (m + 1) \<le> X \<and> X < 2 ^ 53 \<and> Y * m < 2 ^ 51 \<longrightarrow>
      resize_target m X Y = Some (m, 0))
   \<and> (0 < m \<and> 0 < X \<and> X \<le> m \<and> X * (m + 1) \<le> Y \<and> Y < 2 ^ 53 \<and> X * m < 2 ^ 51 \<longrightarrow>
      resize_target m X Y = Some (0, m))
   \<and> (validateMimeType (unicode_ToLower env) blob \<and>
      image_Decode env (Context options) (BlobKey blob) (world s) = (Inr img, w') \<and>
      resize_target (Size options) (fst (Bounds_Max env img)) (snd (Bounds_Max env img)) =
        Some (x, y) \<longrightarrow>
      Call_Resize x y \<in> set (new_calls s (snd (handleBlob env options blob s))))"
proof (intro conjI impI)
  assume a: "0 < m \<and> 0 < Y \<and> Y * (m + 1) \<le> X \<and> X < 2 ^ 53 \<and> Y * m < 2 ^ 51"
  then have z: "scale Y m X = 0" and l: "m < X"
    using scale_zero [of Y m X] by simp_all
  from a have "0 < m"
    by simp
  from resize_target_passes [OF this l, of Y] a show "resize_target m X Y = Some (m, 0)"
    by (simp add: z)
next
  assume a: "0 < m \<and> 0 < X \<and> X \<le> m \<and> X * (m + 1) \<le> Y \<and> Y < 2 ^ 53 \<and> X * m < 2 ^ 51"
  then have z: "scale X m Y = 0" and l: "m < Y"
    using scale_zero [of X m Y] by simp_all
  from a have "0 < m" and "X \<le> m"
    by simp_all
  from resize_target_tall [OF this l] show "resize_target m X Y = Some (0, m)"
    by (simp add: z)
next
  assume a: "validateMimeType (unicode_ToLower env) blob \<and>
      image_Decode env (Context options) (BlobKey blob) (world s) = (Inr img, w') \<and>
      resize_target (Size options) (fst (Bounds_Max env img)) (snd (Bounds_Max env img)) =
        Some (x, y)"
  then have "filter (\<lambda>c. \<exists>x y. c = Call_Resize x y)
           (new_calls s (snd (handleBlob env options blob s))) = [Call_Resize x y]"
    using handleBlob_resize_calls [of env options blob s img w'] by simp
  then have "Call_Resize x y \<in> set (filter (\<lambda>c. \<exists>x y. c = Call_Resize x y)
           (new_calls s (snd (handleBlob env options blob s))))"
    by simp
  then show "Call_Resize x y \<in> set (new_calls s (snd (handleBlob env options blob s)))"
    by simp
qed

theorem zero_target_dimension_witness:
  "resize_target 1600 4000 2 = Some (1600, 0)
   \<and> resize_target 1600 2 4000 = Some (0, 1600)
   \<and> Call_Resize 1600 0 \<in> set (new_calls (mem_state [] ''image/gif'' 4000 2)
        (snd (handleBlob (mem_env [''photo'']) photo_options (mem_blob ''old'' ''image/gif'')
                (mem_state [] ''image/gif'' 4000 2))))"
proof -
  let ?s = "mem_state [] ''image/gif'' 4000 2"
  let ?E = "mem_env [''photo'']"
  let ?b = "mem_blob ''old'' ''image/gif''"
  have 1: "resize_target 1600 4000 2 = Some (1600, 0)"
    using zero_target_dimension [where m = 1600 and Y = 2 and X = 4000, THEN conjunct1]
    by simp
  have 2: "resize_target 1600 2 4000 = Some (0, 1600)"
    using zero_target_dimension [where m = 1600 and Y = 4000 and X = 2,
        THEN conjunct2, THEN conjunct1]
    by simp
  have v: "validateMimeType (unicode_ToLower ?E) ?b"
    by code_simp
  have d: "image_Decode ?E (Context photo_options) (BlobKey ?b) (world ?s) =
             (Inr (4000, 2), world ?s)"
    by (simp add: mem_env_def mem_Decode_def mem_fail_def mem_state_def mem_blob_def)
  have r: "resize_target (Size photo_options) (fst (Bounds_Max ?E (4000, 2)))
             (snd (Bounds_Max ?E (4000, 2))) = Some (1600, 0)"
    using 1 by (simp add: mem_env_def photo_options_def)
  from zero_target_dimension [where env = ?E and blob = ?b and options = photo_options
      and s = ?s and img = "(4000, 2)" and w' = "world ?s" and x = 1600 and y = 0,
      THEN conjunct2, THEN conjunct2] v d r
  have "Call_Resize 1600 0 \<in> set (new_calls ?s (snd (handleBlob ?E photo_options ?b ?s)))"
    by blast
  with 1 2 show ?thesis
    by blast
qed

end
